theory Spec2Isabelle
  imports Main
begin

section \<open>Host objects and JavaScript values\<close>

text \<open>
  The library is a thin layer over the browser's document tree. A node of that tree is an
  object with an identity and an interface that never changes, so a node handle carries
  both. The interfaces are the ones the source asks about with \<^verbatim>\<open>instanceof\<close> and
  \<^verbatim>\<open>nodeType\<close>.
\<close>

datatype node_kind =
  HTMLDocument | XMLDocument | HTMLElement | OtherElement
  | Text | Comment | DocumentType | DocumentFragment

datatype node = Node (kind: node_kind) (ident: nat)

fun nodeType :: "node \<Rightarrow> nat" where
  "nodeType (Node HTMLDocument _) = 9"
| "nodeType (Node XMLDocument _) = 9"
| "nodeType (Node HTMLElement _) = 1"
| "nodeType (Node OtherElement _) = 1"
| "nodeType (Node Text _) = 3"
| "nodeType (Node Comment _) = 8"
| "nodeType (Node DocumentType _) = 10"
| "nodeType (Node DocumentFragment _) = 11"

text \<open>
  A value of the language. Numbers are the integers (an index is all the library uses them
  for), a function is known by a tag only. A collection (an instance of the class
  \<^verbatim>\<open>DOM\<close>) is its members, in order, with the fields \<^verbatim>\<open>selector\<close> and \<^verbatim>\<open>parent\<close>.
  The only place where the class stores a member is \<^verbatim>\<open>this.push(element)\<close> under the
  guard \<^verbatim>\<open>isElement(element)\<close>, which asks for a node, so the members are node handles.

  The constructor of the class does not call \<^verbatim>\<open>super()\<close>, so the class runs only as the
  build of the repository compiles it (Babel, through browserify). There a collection is
  an ordinary object whose prototype chain ends in \<^verbatim>\<open>Array.prototype\<close>: \<^verbatim>\<open>length\<close> is
  an ordinary property, and the members are the indexed properties below it, which is what
  \<^verbatim>\<open>forEach\<close> visits. Assigning to \<^verbatim>\<open>length\<close> deletes no indexed property. So a
  collection has two lists: \<open>items\<close>, the properties at the indices 0 to length - 1, and
  \<open>stale\<close>, the properties at the indices from length on, which an assignment
  \<^verbatim>\<open>this.length = 0\<close> has left behind. \<^verbatim>\<open>this.length\<close> is the length of \<open>items\<close>. A new
  collection has no indexed property.
\<close>

datatype jsval =
  Undefined | Null | BoolV bool | NumV int | StrV string | FunV nat | NodeV node
  | ArrV "jsval list" | ObjV "(string \<times> jsval) list" | DOMV dom
and dom = DOM (items: "node list") (stale: "node list") (selector: jsval) (parent: jsval)

datatype error =
  TypeError | SyntaxError | InvalidCharacterError | NotFoundError | HierarchyRequestError

fun truthy :: "jsval \<Rightarrow> bool" where
  "truthy Undefined = False"
| "truthy Null = False"
| "truthy (BoolV b) = b"
| "truthy (NumV n) = (n \<noteq> 0)"
| "truthy (StrV s) = (s \<noteq> [])"
| "truthy _ = True"

fun isString :: "jsval \<Rightarrow> bool" where
  "isString (StrV _) = True"
| "isString _ = False"

fun isArray :: "jsval \<Rightarrow> bool" where
  "isArray (ArrV _) = True"
| "isArray _ = False"

fun instanceof_DOM :: "jsval \<Rightarrow> bool" where
  "instanceof_DOM (DOMV _) = True"
| "instanceof_DOM _ = False"

definition instanceof_HTMLDocument :: "node \<Rightarrow> bool" where
  "instanceof_HTMLDocument n = (kind n = HTMLDocument)"

definition instanceof_Node :: "node \<Rightarrow> bool" where
  "instanceof_Node n = True"

definition instanceof_HTMLElement :: "node \<Rightarrow> bool" where
  "instanceof_HTMLElement n = (kind n = HTMLElement)"

definition instanceof_Element :: "node \<Rightarrow> bool" where
  "instanceof_Element n = (kind n = HTMLElement \<or> kind n = OtherElement)"

section \<open>Membership: isElement, add, get\<close>

text \<open>
  \<^verbatim>\<open>isElement\<close>: an HTML document, or a node whose \<^verbatim>\<open>nodeType\<close> is 1 (element) or
  3 (text).
\<close>

fun isElement :: "jsval \<Rightarrow> bool" where
  "isElement (NodeV n) =
     (instanceof_HTMLDocument n \<or>
      ((instanceof_Node n \<or> instanceof_HTMLElement n) \<and> (nodeType n = 3 \<or> nodeType n = 1)))"
| "isElement _ = False"

text \<open>
  \<^verbatim>\<open>this.push(element)\<close> writes the property at the index \<^verbatim>\<open>length\<close>, over what may
  be there, and adds one to \<^verbatim>\<open>length\<close>.
\<close>

definition push :: "dom \<Rightarrow> node \<Rightarrow> dom" where
  "push this n = DOM (items this @ [n]) (drop 1 (stale this)) (selector this) (parent this)"

text \<open>
  \<^verbatim>\<open>add\<close> returns \<^verbatim>\<open>this\<close>; the result of the model is the collection after the call.
  \<^verbatim>\<open>forEach\<close> and \<^verbatim>\<open>each\<close> visit the items from first to last.
\<close>

fun add :: "dom \<Rightarrow> jsval \<Rightarrow> dom" where
  "add this (NodeV n) = (if isElement (NodeV n) then push this n else this)"
| "add this (ArrV xs) = fold (\<lambda>x t. add t x) xs this"
| "add this (DOMV d) = fold (\<lambda>n t. add t (NodeV n)) (items d) this"
| "add this _ = this"

text \<open>
  \<^verbatim>\<open>this[index]\<close> is the indexed property at that index, a member or a node left
  behind, and \<^verbatim>\<open>undefined\<close> where there is none.
\<close>

definition at_index :: "dom \<Rightarrow> int \<Rightarrow> jsval" where
  "at_index this index =
     (if 0 \<le> index \<and> index < int (length (items this @ stale this))
      then NodeV ((items this @ stale this) ! nat index) else Undefined)"

definition get :: "dom \<Rightarrow> int \<Rightarrow> jsval" where
  "get this index =
     (if index > int (length (items this)) then Undefined else at_index this index)"

section \<open>Strings: parseSpaces\<close>

text \<open>
  Strings are lists of ASCII characters. The white space of \<^verbatim>\<open>trim\<close> and of the
  pattern \<^verbatim>\<open>\s\<close> is, among these, tab, line feed, vertical tab, form feed, carriage
  return and space.
\<close>

definition is_space :: "char \<Rightarrow> bool" where
  "is_space c = (c \<in> {CHR 0x09, CHR 0x0A, CHR 0x0B, CHR 0x0C, CHR 0x0D, CHR 0x20})"

definition trim :: "string \<Rightarrow> string" where
  "trim s = rev (dropWhile is_space (rev (dropWhile is_space s)))"

text \<open>
  \<^verbatim>\<open>str.split(/\s+/)\<close>: the pieces between the runs of white space, in order. A run at
  the start or at the end leaves an empty piece there, and the empty string is one empty
  piece. The first argument is the piece being read.
\<close>

function split_spaces :: "string \<Rightarrow> string \<Rightarrow> string list" where
  "split_spaces cur [] = [cur]"
| "split_spaces cur (c # cs) =
     (if is_space c then cur # split_spaces [] (dropWhile is_space cs)
      else split_spaces (cur @ [c]) cs)"
  by pat_completeness auto
termination
  by (relation "measure (\<lambda>(cur, s). length s)")
    (auto simp add: less_Suc_eq_le length_dropWhile_le)

definition parseSpaces :: "string \<Rightarrow> string list" where
  "parseSpaces str = split_spaces [] (trim str)"

section \<open>The document tree and the host's state\<close>

text \<open>
  The nodes that have a parent or children are kept in a forest: the tree of the document
  and the trees that were detached from it. A node that occurs nowhere in the forest is a
  detached node without children. The order of the subtrees is the order of the child
  nodes.
\<close>

datatype tree = Tree (label: node) (subtrees: "tree list")

fun nodes_of :: "tree \<Rightarrow> node list"
  and nodes_of_list :: "tree list \<Rightarrow> node list" where
  "nodes_of (Tree n ts) = n # nodes_of_list ts"
| "nodes_of_list [] = []"
| "nodes_of_list (t # ts) = nodes_of t @ nodes_of_list ts"

fun find_tree :: "node \<Rightarrow> tree \<Rightarrow> tree option"
  and find_forest :: "node \<Rightarrow> tree list \<Rightarrow> tree option" where
  "find_tree n (Tree m ts) = (if m = n then Some (Tree m ts) else find_forest n ts)"
| "find_forest n [] = None"
| "find_forest n (t # ts) =
     (case find_tree n t of Some r \<Rightarrow> Some r | None \<Rightarrow> find_forest n ts)"

fun parent_tree :: "node \<Rightarrow> tree \<Rightarrow> node option"
  and parent_forest :: "node \<Rightarrow> tree list \<Rightarrow> node option" where
  "parent_tree n (Tree m ts) =
     (if n \<in> set (map label ts) then Some m else parent_forest n ts)"
| "parent_forest n [] = None"
| "parent_forest n (t # ts) =
     (case parent_tree n t of Some p \<Rightarrow> Some p | None \<Rightarrow> parent_forest n ts)"

text \<open>Cutting a node out: every subtree with that label goes, at every depth.\<close>

fun prune_tree :: "node \<Rightarrow> tree \<Rightarrow> tree"
  and prune_forest :: "node \<Rightarrow> tree list \<Rightarrow> tree list" where
  "prune_tree n (Tree m ts) = Tree m (prune_forest n ts)"
| "prune_forest n [] = []"
| "prune_forest n (t # ts) =
     (if label t = n then prune_forest n ts else prune_tree n t # prune_forest n ts)"

text \<open>
  The state of the page: the forest, the attributes and class tokens of the nodes, the
  registered listeners, the inline styles, the global \<^verbatim>\<open>document\<close>, and the two
  variables of the module: the weak map \<^verbatim>\<open>privateData\<close> (a record per node, the keys in insertion order) and
  \<^verbatim>\<open>$document\<close>, which is \<^verbatim>\<open>undefined\<close> until the module has been loaded and a
  collection from then on. The reflection of the class tokens into the attribute
  \<^verbatim>\<open>class\<close> is not part of the model.
\<close>

record store =
  forest :: "tree list"
  attributes :: "node \<Rightarrow> string \<rightharpoonup> string"
  classes :: "node \<Rightarrow> string list"
  listeners :: "node \<Rightarrow> (string \<times> jsval \<times> bool) list"
  styles :: "node \<Rightarrow> string \<rightharpoonup> jsval"
  document :: node
  privateData :: "node \<rightharpoonup> (string \<times> jsval) list"
  dollar_document :: "dom option"

definition parentNode :: "store \<Rightarrow> node \<Rightarrow> node option" where
  "parentNode S n = parent_forest n (forest S)"

definition parentElement :: "store \<Rightarrow> node \<Rightarrow> node option" where
  "parentElement S n =
     (case parentNode S n of
        None \<Rightarrow> None
      | Some p \<Rightarrow> if instanceof_Element p then Some p else None)"

definition descendants :: "store \<Rightarrow> node \<Rightarrow> node list" where
  "descendants S n =
     (case find_forest n (forest S) of None \<Rightarrow> [] | Some t \<Rightarrow> nodes_of_list (subtrees t))"


text \<open>
  \<^verbatim>\<open>parent.removeChild(child)\<close>: \<^verbatim>\<open>NotFoundError\<close> unless \<^verbatim>\<open>parent\<close> is the parent
  of \<^verbatim>\<open>child\<close>; otherwise the subtree of \<^verbatim>\<open>child\<close> becomes a tree of its own.
\<close>

definition removeChild :: "store \<Rightarrow> node \<Rightarrow> node \<Rightarrow> error + store" where
  "removeChild S p child =
     (if parentNode S child \<noteq> Some p then Inl NotFoundError
      else case find_forest child (forest S) of
             None \<Rightarrow> Inl NotFoundError
           | Some t \<Rightarrow> Inr (S\<lparr>forest := prune_forest child (forest S) @ [t]\<rparr>))"

text \<open>
  \<^verbatim>\<open>node.remove()\<close> is a method of elements, character data and document types. A
  document or a document fragment has no such method, so the call is a \<^verbatim>\<open>TypeError\<close>.
\<close>

definition isChildNode :: "node \<Rightarrow> bool" where
  "isChildNode n = (kind n \<in> {HTMLElement, OtherElement, Text, Comment, DocumentType})"

definition node_remove :: "store \<Rightarrow> node \<Rightarrow> error + store" where
  "node_remove S n =
     (if \<not> isChildNode n then Inl TypeError
      else case parentNode S n of None \<Rightarrow> Inr S | Some p \<Rightarrow> removeChild S p n)"

text \<open>
  What the model takes from the host without looking inside: the selector engine
  (\<^verbatim>\<open>None\<close> for a selector that does not parse, otherwise the test a candidate element
  has to pass), the HTML parser (it returns the child nodes of the body of the new
  document), deep \<^verbatim>\<open>cloneNode\<close>, \<^verbatim>\<open>appendChild\<close>, the assignment to a property of
  the inline style of a node, the test for a well-formed attribute name, and the
  conversion to a string of a value that is neither a string nor \<^verbatim>\<open>undefined\<close>.
\<close>

record host =
  selectorEngine :: "string \<Rightarrow> (store \<Rightarrow> node \<Rightarrow> bool) option"
  parseFromString :: "string \<Rightarrow> store \<Rightarrow> store \<times> node list"
  cloneNode :: "store \<Rightarrow> node \<Rightarrow> store \<times> node"
  appendChild :: "store \<Rightarrow> node \<Rightarrow> node \<Rightarrow> error + store"
  setStyle :: "store \<Rightarrow> node \<Rightarrow> string \<Rightarrow> jsval \<Rightarrow> error + store"
  validName :: "string \<Rightarrow> bool"
  hostToString :: "jsval \<Rightarrow> string"

fun toString :: "host \<Rightarrow> jsval \<Rightarrow> string" where
  "toString H (StrV s) = s"
| "toString H Undefined = ''undefined''"
| "toString H v = hostToString H v"

text \<open>
  \<^verbatim>\<open>querySelectorAll\<close> is a method of documents, document fragments and elements; on any
  other node the call is a \<^verbatim>\<open>TypeError\<close>. A selector that does not parse is a
  \<^verbatim>\<open>SyntaxError\<close>. The result is the matching elements below the node, in tree order.
\<close>

definition isParentNode :: "node \<Rightarrow> bool" where
  "isParentNode n =
     (kind n \<in> {HTMLDocument, XMLDocument, DocumentFragment, HTMLElement, OtherElement})"

definition querySelectorAll :: "host \<Rightarrow> store \<Rightarrow> node \<Rightarrow> string \<Rightarrow> error + node list" where
  "querySelectorAll H S n sel =
     (if \<not> isParentNode n then Inl TypeError
      else case selectorEngine H sel of
             None \<Rightarrow> Inl SyntaxError
           | Some matches \<Rightarrow>
               Inr (filter (\<lambda>d. instanceof_Element d \<and> matches S d) (descendants S n)))"

section \<open>Iteration and construction\<close>

text \<open>
  \<^verbatim>\<open>forEach\<close> with a callback that may throw: the state \<^verbatim>\<open>s\<close> is everything the
  callback changes, and the first exception ends the loop. \<^verbatim>\<open>each\<close> is \<^verbatim>\<open>forEach\<close>
  over the members (its callbacks are functions; none of the library's own callbacks reads
  the index).
\<close>

fun forEach :: "('x \<Rightarrow> 's \<Rightarrow> error + 's) \<Rightarrow> 'x list \<Rightarrow> 's \<Rightarrow> error + 's" where
  "forEach f [] s = Inr s"
| "forEach f (x # xs) s = (case f x s of Inl e \<Rightarrow> Inl e | Inr s' \<Rightarrow> forEach f xs s')"

definition each :: "(node \<Rightarrow> 's \<Rightarrow> error + 's) \<Rightarrow> dom \<Rightarrow> 's \<Rightarrow> error + 's" where
  "each callback this s = forEach callback (items this) s"

lemma forEach_cong [fundef_cong]:
  "xs = ys \<Longrightarrow> s = t \<Longrightarrow> (\<And>x u. x \<in> set ys \<Longrightarrow> f x u = g x u)
    \<Longrightarrow> forEach f xs s = forEach g ys t"
  by (induction ys arbitrary: xs s t) (auto split: sum.splits)

lemma each_cong [fundef_cong]:
  "c = d \<Longrightarrow> s = t \<Longrightarrow> (\<And>x u. x \<in> set (items d) \<Longrightarrow> f x u = g x u)
    \<Longrightarrow> each f c s = each g d t"
  unfolding each_def by (rule forEach_cong) auto

definition document_value :: "store \<Rightarrow> jsval" where
  "document_value S = (case dollar_document S of None \<Rightarrow> Undefined | Some d \<Rightarrow> DOMV d)"

text \<open>
  The weights by which the calls between \<^verbatim>\<open>$\<close>, \<^verbatim>\<open>init\<close> and \<^verbatim>\<open>find\<close> end:
  a call of \<^verbatim>\<open>$\<close> on a collection returns at once, and \<^verbatim>\<open>$document\<close> is a
  collection or \<^verbatim>\<open>undefined\<close>.
\<close>

definition dollar_weight :: "store \<Rightarrow> jsval \<Rightarrow> nat" where
  "dollar_weight S x =
     (if instanceof_DOM x then 0
      else 2 + (if isString x then 6 else 0) + (if dollar_document S = None then 0 else 1))"

definition init_weight :: "store \<Rightarrow> jsval \<Rightarrow> jsval \<Rightarrow> nat" where
  "init_weight S sel par =
     1 + (if isString sel then 6 else 0)
       + (if truthy par then 1 + dollar_weight S par else 0)"

text \<open>
  The factory \<^verbatim>\<open>$\<close>, the initialiser \<^verbatim>\<open>init\<close> (the constructor passes its arguments on
  to it) and \<^verbatim>\<open>find\<close> call each other. \<^verbatim>\<open>new DOM(...)\<close> makes an empty
  collection and runs \<^verbatim>\<open>init\<close> on it. A missing argument is \<^verbatim>\<open>undefined\<close>, and the
  default \<^verbatim>\<open>parent = $document\<close> of \<^verbatim>\<open>$\<close> applies to it. None of the three changes the
  page.
\<close>

function dollar :: "host \<Rightarrow> store \<Rightarrow> jsval \<Rightarrow> jsval \<Rightarrow> error + dom"
  and init :: "host \<Rightarrow> store \<Rightarrow> jsval \<Rightarrow> jsval \<Rightarrow> error + dom"
  and find_DOM :: "host \<Rightarrow> store \<Rightarrow> dom \<Rightarrow> string \<Rightarrow> error + dom" where
  "dollar H S sel par =
     (case sel of
        DOMV d \<Rightarrow> Inr d
      | _ \<Rightarrow> init H S sel (if par = Undefined then document_value S else par))"
| "init H S sel par =
     (case (if truthy par
            then (case dollar H S par Undefined of Inl e \<Rightarrow> Inl e | Inr d \<Rightarrow> Inr (DOMV d))
            else Inr (document_value S)) of
        Inl e \<Rightarrow> Inl e
      | Inr this_parent \<Rightarrow>
          (let this = DOM [] [] (if truthy sel then sel else StrV []) this_parent in
           case sel of
             StrV s \<Rightarrow>
               (case this_parent of
                  DOMV p \<Rightarrow>
                    (case find_DOM H S p s of
                       Inl e \<Rightarrow> Inl e
                     | Inr found \<Rightarrow> each (\<lambda>element t. Inr (add t (NodeV element))) found this)
                | _ \<Rightarrow> Inr (add this sel))
           | _ \<Rightarrow> Inr (add this sel)))"
| "find_DOM H S this sel =
     (case dollar H S Undefined Undefined of
        Inl e \<Rightarrow> Inl e
      | Inr collection \<Rightarrow>
          each (\<lambda>element c.
                  case querySelectorAll H S element sel of
                    Inl e \<Rightarrow> Inl e
                  | Inr elements \<Rightarrow> Inr (add c (ArrV (map NodeV elements))))
            this collection)"
  by pat_completeness auto

termination
  apply (relation "measure (\<lambda>x. case x of
            Inl (H, S, sel, par) \<Rightarrow>
              (if instanceof_DOM sel then 0
               else 1 + init_weight S sel
                      (if par = Undefined then document_value S else par))
          | Inr (Inl (H, S, sel, par)) \<Rightarrow> init_weight S sel par
          | Inr (Inr (H, S, this, sel)) \<Rightarrow> 5)")
  apply (auto simp add: init_weight_def dollar_weight_def document_value_def
      split: option.splits jsval.splits)
  done

declare dollar.simps [simp del] init.simps [simp del] find_DOM.simps [simp del]

text \<open>
  The last statement of the module, \<^verbatim>\<open>$document = $(document)\<close>, runs once, while
  \<^verbatim>\<open>$document\<close> is still \<^verbatim>\<open>undefined\<close>.
\<close>

definition load :: "host \<Rightarrow> store \<Rightarrow> error + store" where
  "load H S =
     (case dollar H (S\<lparr>dollar_document := None\<rparr>) (NodeV (document S)) Undefined of
        Inl e \<Rightarrow> Inl e
      | Inr d \<Rightarrow> Inr (S\<lparr>dollar_document := Some d\<rparr>))"

section \<open>The methods that change the page\<close>

text \<open>
  A method takes the state of the page and the collection it is called on. It returns an
  exception, or the state afterwards and the value of the call. \<^verbatim>\<open>return this\<close> is the
  value \<open>DOMV this\<close>.
\<close>

definition detach :: "store \<Rightarrow> dom \<Rightarrow> error + store \<times> jsval" where
  "detach S this =
     (case each (\<lambda>element S'.
                   case parentElement S' element of
                     None \<Rightarrow> Inr S'
                   | Some p \<Rightarrow> removeChild S' p element)
             this S of
        Inl e \<Rightarrow> Inl e
      | Inr S' \<Rightarrow> Inr (S', DOMV this))"

text \<open>\<^verbatim>\<open>[cleanUp]\<close>: \<^verbatim>\<open>privateData.delete\<close> for every member.\<close>

definition cleanUp :: "store \<Rightarrow> dom \<Rightarrow> error + store" where
  "cleanUp S this =
     each (\<lambda>element S'. Inr (S'\<lparr>privateData := (privateData S')(element := None)\<rparr>)) this S"

text \<open>
  \<^verbatim>\<open>element.classList\<close> exists on elements only. \<^verbatim>\<open>add\<close> and \<^verbatim>\<open>remove\<close> of the
  token list refuse the empty token with a \<^verbatim>\<open>SyntaxError\<close> and a token with ASCII
  white space with an \<^verbatim>\<open>InvalidCharacterError\<close>.
\<close>

definition is_ascii_whitespace :: "char \<Rightarrow> bool" where
  "is_ascii_whitespace c = (c \<in> {CHR 0x09, CHR 0x0A, CHR 0x0C, CHR 0x0D, CHR 0x20})"

definition classList_add :: "store \<Rightarrow> node \<Rightarrow> string \<Rightarrow> error + store" where
  "classList_add S n token =
     (if \<not> instanceof_Element n then Inl TypeError
      else if token = [] then Inl SyntaxError
      else if \<exists>c \<in> set token. is_ascii_whitespace c then Inl InvalidCharacterError
      else Inr (S\<lparr>classes := (classes S)
                  (n := if token \<in> set (classes S n) then classes S n
                        else classes S n @ [token])\<rparr>))"

definition classList_remove :: "store \<Rightarrow> node \<Rightarrow> string \<Rightarrow> error + store" where
  "classList_remove S n token =
     (if \<not> instanceof_Element n then Inl TypeError
      else if token = [] then Inl SyntaxError
      else if \<exists>c \<in> set token. is_ascii_whitespace c then Inl InvalidCharacterError
      else Inr (S\<lparr>classes := (classes S)(n := removeAll token (classes S n))\<rparr>))"

definition addClass :: "store \<Rightarrow> dom \<Rightarrow> string \<Rightarrow> error + store \<times> jsval" where
  "addClass S this cls =
     (let tokens = parseSpaces cls in
      case each (\<lambda>element S'. forEach (\<lambda>token S''. classList_add S'' element token) tokens S')
             this S of
        Inl e \<Rightarrow> Inl e
      | Inr S' \<Rightarrow> Inr (S', DOMV this))"

definition removeClass :: "store \<Rightarrow> dom \<Rightarrow> string \<Rightarrow> error + store \<times> jsval" where
  "removeClass S this cls =
     (let tokens = parseSpaces cls in
      case each (\<lambda>element S'. forEach (\<lambda>token S''. classList_remove S'' element token) tokens S')
             this S of
        Inl e \<Rightarrow> Inl e
      | Inr S' \<Rightarrow> Inr (S', DOMV this))"

text \<open>
  Every node is an event target. A listener that is registered already (same type,
  callback and capture flag) is not registered again.
\<close>

fun isFunction :: "jsval \<Rightarrow> bool" where
  "isFunction (FunV _) = True"
| "isFunction _ = False"

definition addEventListener :: "store \<Rightarrow> node \<Rightarrow> string \<Rightarrow> jsval \<Rightarrow> bool \<Rightarrow> store" where
  "addEventListener S n type callback capture =
     (if callback = Null \<or> (type, callback, capture) \<in> set (listeners S n) then S
      else S\<lparr>listeners := (listeners S)(n := listeners S n @ [(type, callback, capture)])\<rparr>)"

definition removeEventListener :: "store \<Rightarrow> node \<Rightarrow> string \<Rightarrow> jsval \<Rightarrow> bool \<Rightarrow> store" where
  "removeEventListener S n type callback capture =
     S\<lparr>listeners := (listeners S)(n := removeAll (type, callback, capture) (listeners S n))\<rparr>"

definition on :: "store \<Rightarrow> dom \<Rightarrow> string \<Rightarrow> jsval \<Rightarrow> error + store \<times> jsval" where
  "on S this events callback =
     (if \<not> isFunction callback \<or> events = [] then Inr (S, DOMV this)
      else
        let types = parseSpaces events in
        case each (\<lambda>element S'.
                     forEach (\<lambda>type S''. Inr (addEventListener S'' element type callback False))
                       types S')
               this S of
          Inl e \<Rightarrow> Inl e
        | Inr S' \<Rightarrow> Inr (S', DOMV this))"

definition off :: "store \<Rightarrow> dom \<Rightarrow> string \<Rightarrow> jsval \<Rightarrow> error + store \<times> jsval" where
  "off S this events callback =
     (if \<not> isFunction callback \<or> events = [] then Inr (S, DOMV this)
      else
        let types = parseSpaces events in
        case each (\<lambda>element S'.
                     forEach (\<lambda>type S''. Inr (removeEventListener S'' element type callback False))
                       types S')
               this S of
          Inl e \<Rightarrow> Inl e
        | Inr S' \<Rightarrow> Inr (S', DOMV this))"

text \<open>
  \<^verbatim>\<open>css(rule, value)\<close>: \<^verbatim>\<open>rule\<close> is a string or an object, as the source documents it.
  \<^verbatim>\<open>Object.keys\<close> of an object are its keys, and of a string its indices, where the
  property at an index is the character there.
\<close>

datatype css_rule = RuleName string | RuleObject "(string \<times> jsval) list"

fun truthy_rule :: "css_rule \<Rightarrow> bool" where
  "truthy_rule (RuleName s) = (s \<noteq> [])"
| "truthy_rule (RuleObject _) = True"

fun digits :: "nat \<Rightarrow> string" where
  "digits n =
     (if n < 10 then [char_of (48 + n)] else digits (n div 10) @ [char_of (48 + n mod 10)])"

fun entries :: "css_rule \<Rightarrow> (string \<times> jsval) list" where
  "entries (RuleObject kvs) = kvs"
| "entries (RuleName s) = map (\<lambda>i. (digits i, StrV [s ! i])) [0..<length s]"

fun rule_key :: "css_rule \<Rightarrow> string" where
  "rule_key (RuleName s) = s"
| "rule_key (RuleObject _) = ''[object Object]''"

function css :: "host \<Rightarrow> store \<Rightarrow> dom \<Rightarrow> css_rule \<Rightarrow> jsval \<Rightarrow> error + store \<times> jsval" where
  "css H S this rule value =
     (if value = Undefined \<and> truthy_rule rule then
        (case forEach (\<lambda>(name, v) S'.
                        case css H S' this (RuleName name) v of
                          Inl e \<Rightarrow> Inl e
                        | Inr (S'', _) \<Rightarrow> Inr S'')
                (entries rule) S of
           Inl e \<Rightarrow> Inl e
         | Inr S' \<Rightarrow> Inr (S', DOMV this))
      else
        (case each (\<lambda>element S'. setStyle H S' element (rule_key rule) value) this S of
           Inl e \<Rightarrow> Inl e
         | Inr S' \<Rightarrow> Inr (S', DOMV this)))"
  by pat_completeness auto
termination
  apply (relation "measure (\<lambda>(H, S, this, rule, value).
            if value = Undefined \<and> truthy_rule rule
            then (case rule of RuleObject _ \<Rightarrow> 2 | RuleName _ \<Rightarrow> 1) else 0)")
  apply (auto split: css_rule.splits)
  done

declare css.simps [simp del]

section \<open>Attributes and private data\<close>

text \<open>
  \<^verbatim>\<open>getAttribute\<close> and \<^verbatim>\<open>setAttribute\<close> are methods of elements; on another node
  the call is a \<^verbatim>\<open>TypeError\<close>. On an HTML element both put the name in ASCII lower
  case. \<^verbatim>\<open>getAttribute\<close> is \<^verbatim>\<open>null\<close> for an attribute the element does not have,
  and \<^verbatim>\<open>setAttribute\<close> refuses a name that is not well-formed.
\<close>

definition ascii_lower :: "char \<Rightarrow> char" where
  "ascii_lower c =
     (let k = (of_char c :: nat) in if 65 \<le> k \<and> k \<le> 90 then char_of (k + 32) else c)"

definition attrName :: "node \<Rightarrow> string \<Rightarrow> string" where
  "attrName n key = (if kind n = HTMLElement then map ascii_lower key else key)"

definition getAttribute :: "store \<Rightarrow> node \<Rightarrow> string \<Rightarrow> error + jsval" where
  "getAttribute S n key =
     (if \<not> instanceof_Element n then Inl TypeError
      else Inr (case attributes S n (attrName n key) of None \<Rightarrow> Null | Some v \<Rightarrow> StrV v))"

definition setAttribute :: "host \<Rightarrow> store \<Rightarrow> node \<Rightarrow> string \<Rightarrow> string \<Rightarrow> error + store" where
  "setAttribute H S n key v =
     (if \<not> instanceof_Element n then Inl TypeError
      else if \<not> validName H key then Inl InvalidCharacterError
      else Inr (S\<lparr>attributes := (attributes S)(n := (attributes S n)(attrName n key \<mapsto> v))\<rparr>))"

text \<open>
  \<^verbatim>\<open>attr(key, value)\<close>. The key is a string, as the source documents it. The branch
  that sets has no \<^verbatim>\<open>return\<close>, so the value of the call is \<^verbatim>\<open>undefined\<close>.
\<close>

definition attr :: "host \<Rightarrow> store \<Rightarrow> dom \<Rightarrow> string \<Rightarrow> jsval \<Rightarrow> error + store \<times> jsval" where
  "attr H S this key value =
     (if value = Undefined then
        (if length (items this) \<noteq> 1 then Inr (S, Undefined)
         else case get this 0 of
                NodeV element \<Rightarrow>
                  (case getAttribute S element key of
                     Inl e \<Rightarrow> Inl e
                   | Inr v \<Rightarrow> Inr (S, v))
              | _ \<Rightarrow> Inl TypeError)
      else
        (case each (\<lambda>element S'. setAttribute H S' element key (toString H value)) this S of
           Inl e \<Rightarrow> Inl e
         | Inr S' \<Rightarrow> Inr (S', Undefined)))"

text \<open>
  A record of \<^verbatim>\<open>privateData\<close> is made by \<^verbatim>\<open>Object.create(null)\<close>: it has the
  properties that were assigned to it and no others.
\<close>

definition property :: "(string \<times> jsval) list \<Rightarrow> string \<Rightarrow> jsval" where
  "property rec k = (case map_of rec k of None \<Rightarrow> Undefined | Some v \<Rightarrow> v)"

fun assign :: "(string \<times> jsval) list \<Rightarrow> string \<Rightarrow> jsval \<Rightarrow> (string \<times> jsval) list" where
  "assign [] k v = [(k, v)]"
| "assign ((k', v') # rec) k v = (if k' = k then (k, v) # rec else (k', v') # assign rec k v)"

text \<open>
  \<^verbatim>\<open>data(key, value)\<close>. Reading makes the record of the one member if there is none
  yet. Writing asks, for every member, the collection \<^verbatim>\<open>$(element)\<close> for its record
  and assigns to it: the record is the one \<^verbatim>\<open>privateData\<close> holds for that element, and
  the assignment to anything but a record is a \<^verbatim>\<open>TypeError\<close>. A weak map takes no key
  that is not an object.
\<close>

function data :: "host \<Rightarrow> store \<Rightarrow> dom \<Rightarrow> jsval \<Rightarrow> jsval \<Rightarrow> error + store \<times> jsval" where
  "data H S this key value =
     (if value = Undefined then
        (if length (items this) \<noteq> 1 then Inr (S, Undefined)
         else case get this 0 of
                NodeV element \<Rightarrow>
                  (let S1 = (if privateData S element = None
                             then S\<lparr>privateData := (privateData S)(element \<mapsto> [])\<rparr> else S);
                       rec = (case privateData S1 element of None \<Rightarrow> [] | Some r \<Rightarrow> r)
                   in if key \<noteq> Undefined then Inr (S1, property rec (toString H key))
                      else Inr (S1, ObjV rec))
              | _ \<Rightarrow> Inl TypeError)
      else
        (case each (\<lambda>element S'.
                      case dollar H S' (NodeV element) Undefined of
                        Inl e \<Rightarrow> Inl e
                      | Inr c \<Rightarrow>
                          (case data H S' c Undefined Undefined of
                             Inl e \<Rightarrow> Inl e
                           | Inr (S'', ObjV rec) \<Rightarrow>
                               Inr (S''\<lparr>privateData := (privateData S'')
                                      (element \<mapsto> assign rec (toString H key) value)\<rparr>)
                           | Inr (S'', _) \<Rightarrow> Inl TypeError))
                this S of
           Inl e \<Rightarrow> Inl e
         | Inr S' \<Rightarrow> Inr (S', DOMV this)))"
  by pat_completeness auto
termination
  by (relation "measure (\<lambda>(H, S, this, key, value). if value = Undefined then 0 else 1)") auto

declare data.simps [simp del]

section \<open>clone, append and remove\<close>

definition clone :: "host \<Rightarrow> store \<Rightarrow> dom \<Rightarrow> error + store \<times> dom" where
  "clone H S this =
     (case dollar H S Undefined Undefined of
        Inl e \<Rightarrow> Inl e
      | Inr collection \<Rightarrow>
          each (\<lambda>element (S', c).
                  case cloneNode H S' element of (S'', copy) \<Rightarrow> Inr (S'', add c (NodeV copy)))
            this (S, collection))"

text \<open>\<^verbatim>\<open>toElement(html)\<close>: the parsed nodes as a collection, detached.\<close>

definition toElement :: "host \<Rightarrow> store \<Rightarrow> string \<Rightarrow> error + store \<times> dom" where
  "toElement H S html =
     (case parseFromString H html S of
        (S1, children) \<Rightarrow>
          (case dollar H S1 (ArrV (map NodeV children)) Undefined of
             Inl e \<Rightarrow> Inl e
           | Inr c \<Rightarrow>
               (case detach S1 c of
                  Inl e \<Rightarrow> Inl e
                | Inr (S2, _) \<Rightarrow> Inr (S2, c))))"

text \<open>
  \<^verbatim>\<open>append(html)\<close>. The local variable \<^verbatim>\<open>element\<close> starts as \<^verbatim>\<open>undefined\<close>. The
  second test is \<^verbatim>\<open>!html instanceof DOM\<close>, which the language reads as
  \<^verbatim>\<open>(!html) instanceof DOM\<close>: the operand of \<^verbatim>\<open>instanceof\<close> is the boolean
  \<^verbatim>\<open>!html\<close>. Calling \<^verbatim>\<open>each\<close> on \<^verbatim>\<open>undefined\<close> is a \<^verbatim>\<open>TypeError\<close>.
\<close>

definition append_DOM :: "host \<Rightarrow> store \<Rightarrow> dom \<Rightarrow> jsval \<Rightarrow> error + store \<times> jsval" where
  "append_DOM H S this html =
     (case (case html of
              StrV text \<Rightarrow>
                (case toElement H S text of
                   Inl e \<Rightarrow> Inl e
                 | Inr (S1, parsed) \<Rightarrow> Inr (S1, DOMV this, DOMV parsed))
            | _ \<Rightarrow>
                if instanceof_DOM (BoolV (\<not> truthy html)) then
                  (case dollar H S (get this 0) Undefined of
                     Inl e \<Rightarrow> Inl e
                   | Inr first \<Rightarrow>
                       (case dollar H S html Undefined of
                          Inl e \<Rightarrow> Inl e
                        | Inr wrapped \<Rightarrow> Inr (S, DOMV first, DOMV wrapped)))
                else Inr (S, Undefined, html)) of
        Inl e \<Rightarrow> Inl e
      | Inr (S1, element, html1) \<Rightarrow>
          (case element of
             DOMV targets \<Rightarrow>
               (case each (\<lambda>target S'.
                       case (case html1 of
                               DOMV content \<Rightarrow>
                                 if length (items targets) > 1 then clone H S' content
                                 else Inr (S', content)
                             | _ \<Rightarrow> Inl TypeError) of
                         Inl e \<Rightarrow> Inl e
                       | Inr (S'', content) \<Rightarrow>
                           each (\<lambda>child S3. appendChild H S3 target child) content S'')
                      targets S1 of
                  Inl e \<Rightarrow> Inl e
                | Inr S' \<Rightarrow> Inr (S', DOMV this))
           | _ \<Rightarrow> Inl TypeError))"

text \<open>
  \<^verbatim>\<open>remove()\<close> calls itself on the collection of the elements below the members. The
  recursion ends because the tree is finite; the model counts the depth of the calls with
  fuel, and \<open>None\<close> means that the fuel did not suffice. When no element is below the
  members there is no inner call, and the page is as it was. The result holds the state
  of the page, the collection after \<^verbatim>\<open>this.length = 0\<close> (it has no members any more;
  the indexed properties stay), and the value returned, which is that collection.
\<close>

definition truncate_DOM :: "dom \<Rightarrow> dom" where
  "truncate_DOM this = DOM [] (items this @ stale this) (selector this) (parent this)"

fun remove_DOM :: "nat \<Rightarrow> host \<Rightarrow> store \<Rightarrow> dom \<Rightarrow> (error + store \<times> dom \<times> jsval) option" where
  "remove_DOM 0 H S this = None"
| "remove_DOM (Suc fuel) H S this =
     (case find_DOM H S this ''*'' of
        Inl e \<Rightarrow> Some (Inl e)
      | Inr children \<Rightarrow>
          (case (if length (items children) \<noteq> 0 then remove_DOM fuel H S children
                 else Some (Inr (S, children, Undefined))) of
             None \<Rightarrow> None
           | Some (Inl e) \<Rightarrow> Some (Inl e)
           | Some (Inr (S1, _, _)) \<Rightarrow>
               Some (case detach S1 this of
                       Inl e \<Rightarrow> Inl e
                     | Inr (S2, _) \<Rightarrow>
                         (case cleanUp S2 this of
                            Inl e \<Rightarrow> Inl e
                          | Inr S3 \<Rightarrow>
                              (case each (\<lambda>element S'. node_remove S' element) this S3 of
                                 Inl e \<Rightarrow> Inl e
                               | Inr S4 \<Rightarrow>
                                   Inr (S4, truncate_DOM this, DOMV (truncate_DOM this)))))))"

section \<open>Predicates of the statements\<close>

text \<open>Every member passes \<^verbatim>\<open>isElement\<close>.\<close>

definition members_ok :: "dom \<Rightarrow> bool" where
  "members_ok c = (\<forall>m \<in> set (items c). isElement (NodeV m))"

text \<open>
  The wording of the specification for the same test, "is a DOM element, or the document
  itself": an element, or a document.
\<close>

definition element_or_document :: "node \<Rightarrow> bool" where
  "element_or_document n =
     (instanceof_Element n \<or> kind n = HTMLDocument \<or> kind n = XMLDocument)"

text \<open>The nodes that have a parent: the ones below the root of some tree.\<close>

definition below :: "tree list \<Rightarrow> node set" where
  "below f = (\<Union>t \<in> set f. set (nodes_of_list (subtrees t)))"

text \<open>The pairs of a parent and one of its children.\<close>

fun edges_tree :: "tree \<Rightarrow> (node \<times> node) set"
  and edges_forest :: "tree list \<Rightarrow> (node \<times> node) set" where
  "edges_tree (Tree m ts) = (\<lambda>t. (m, label t)) ` set ts \<union> edges_forest ts"
| "edges_forest [] = {}"
| "edges_forest (t # ts) = edges_tree t \<union> edges_forest ts"

text \<open>
  A page of a browser: no node occurs twice in the forest, and the global
  \<^verbatim>\<open>document\<close> is not an element.
\<close>

definition wf_page :: "store \<Rightarrow> bool" where
  "wf_page S = (distinct (nodes_of_list (forest S)) \<and> \<not> instanceof_Element (document S))"

text \<open>The selector engine reads \<^verbatim>\<open>*\<close> as the selector that every element matches.\<close>

definition matches_all :: "host \<Rightarrow> bool" where
  "matches_all H =
     (case selectorEngine H ''*'' of None \<Rightarrow> False | Some matches \<Rightarrow> \<forall>S n. matches S n)"

text \<open>
  From \<open>S\<close> to \<open>S'\<close> no node has gained a parent, a child or a record of private
  data, and the forest has stayed free of repetitions.
\<close>

definition shrinks :: "store \<Rightarrow> store \<Rightarrow> bool" where
  "shrinks S S' =
     (distinct (nodes_of_list (forest S')) \<and> below (forest S') \<subseteq> below (forest S) \<and>
      edges_forest (forest S') \<subseteq> edges_forest (forest S) \<and>
      document S' = document S \<and> (\<forall>n. privateData S n = None \<longrightarrow> privateData S' n = None))"

text \<open>The elements below the given nodes, in the order in which \<^verbatim>\<open>find('*')\<close> collects them.\<close>

definition element_descendants :: "store \<Rightarrow> node list \<Rightarrow> node list" where
  "element_descendants S ms = concat (map (\<lambda>m. filter instanceof_Element (descendants S m)) ms)"

section \<open>An example page and host\<close>

text \<open>
  A small host for running the model: its selector engine knows \<^verbatim>\<open>*\<close> and class
  selectors, its parser answers every text with one new \<^verbatim>\<open>span\<close> in a new document,
  a copy of a node has its identifier moved up by 1000, and \<^verbatim>\<open>appendChild\<close> moves the
  subtree of the child to the end of the children of the parent.
\<close>

fun graft_tree :: "node \<Rightarrow> tree \<Rightarrow> tree \<Rightarrow> tree"
  and graft_forest :: "node \<Rightarrow> tree \<Rightarrow> tree list \<Rightarrow> tree list" where
  "graft_tree p new (Tree m ts) =
     (if m = p then Tree m (ts @ [new]) else Tree m (graft_forest p new ts))"
| "graft_forest p new [] = []"
| "graft_forest p new (t # ts) = graft_tree p new t # graft_forest p new ts"

fun copy_tree :: "tree \<Rightarrow> tree" where
  "copy_tree (Tree n ts) = Tree (Node (kind n) (ident n + 1000)) (map copy_tree ts)"

definition subtree_of :: "store \<Rightarrow> node \<Rightarrow> tree" where
  "subtree_of S n = (case find_forest n (forest S) of None \<Rightarrow> Tree n [] | Some t \<Rightarrow> t)"

definition example_appendChild :: "store \<Rightarrow> node \<Rightarrow> node \<Rightarrow> error + store" where
  "example_appendChild S p child =
     (if \<not> isParentNode p \<or> p \<in> set (nodes_of (subtree_of S child)) then Inl HierarchyRequestError
      else
        let f = prune_forest child (forest S) in
        Inr (S\<lparr>forest := (if find_forest p f = None then f @ [Tree p [subtree_of S child]]
                           else graft_forest p (subtree_of S child) f)\<rparr>))"

definition example_cloneNode :: "store \<Rightarrow> node \<Rightarrow> store \<times> node" where
  "example_cloneNode S n =
     (S\<lparr>forest := forest S @ [copy_tree (subtree_of S n)],
        attributes := (\<lambda>m. if 1000 \<le> ident m then attributes S (Node (kind m) (ident m - 1000))
                            else attributes S m),
        classes := (\<lambda>m. if 1000 \<le> ident m then classes S (Node (kind m) (ident m - 1000))
                         else classes S m)\<rparr>,
      Node (kind n) (ident n + 1000))"

definition example_parse :: "string \<Rightarrow> store \<Rightarrow> store \<times> node list" where
  "example_parse html S =
     (S\<lparr>forest := forest S @
          [Tree (Node HTMLDocument 100)
             [Tree (Node HTMLElement 101)
                [Tree (Node HTMLElement 102) [],
                 Tree (Node HTMLElement 103) [Tree (Node HTMLElement 104) []]]]]\<rparr>,
      [Node HTMLElement 104])"

definition example_host :: host where
  "example_host =
     \<lparr>selectorEngine =
        (\<lambda>sel. case sel of
                  [] \<Rightarrow> None
                | c # cs \<Rightarrow> if sel = ''*'' then Some (\<lambda>S n. True)
                            else if c = CHR ''.'' then Some (\<lambda>S n. cs \<in> set (classes S n))
                            else None),
      parseFromString = example_parse,
      cloneNode = example_cloneNode,
      appendChild = example_appendChild,
      setStyle = (\<lambda>S n k v. if instanceof_Element n
                             then Inr (S\<lparr>styles := (styles S)(n := (styles S n)(k \<mapsto> v))\<rparr>)
                             else Inl TypeError),
      validName = (\<lambda>k. k \<noteq> [] \<and> (\<forall>c \<in> set k. \<not> is_ascii_whitespace c)),
      hostToString = (\<lambda>v. ''[object Object]'')\<rparr>"

definition page_document :: node where "page_document = Node HTMLDocument 0"
definition page_html :: node where "page_html = Node HTMLElement 1"
definition page_body :: node where "page_body = Node HTMLElement 2"
definition page_div :: node where "page_div = Node HTMLElement 3"
definition page_span :: node where "page_span = Node HTMLElement 4"
definition page_em :: node where "page_em = Node HTMLElement 5"
definition page_text :: node where "page_text = Node Text 6"

text \<open>
  The page: \<^verbatim>\<open>div\<close> in the body, \<^verbatim>\<open>span\<close> in the \<^verbatim>\<open>div\<close>, and \<^verbatim>\<open>em\<close> and a text in
  the \<^verbatim>\<open>span\<close>; the module has been loaded, so \<^verbatim>\<open>$document\<close> is \<^verbatim>\<open>$(document)\<close>.
\<close>

definition example_page :: store where
  "example_page =
     \<lparr>forest = [Tree page_document [Tree page_html [Tree page_body
                  [Tree page_div [Tree page_span [Tree page_em [], Tree page_text []]]]]]],
      attributes = (\<lambda>n. Map.empty),
      classes = (\<lambda>n. []),
      listeners = (\<lambda>n. []),
      styles = (\<lambda>n. Map.empty),
      document = page_document,
      privateData = Map.empty,
      dollar_document = Some (DOM [page_document] [] (NodeV page_document) Undefined)\<rparr>"

text \<open>The same page with a record of private data for each of the three elements.\<close>

definition example_page_data :: store where
  "example_page_data =
     example_page\<lparr>privateData :=
       [page_div \<mapsto> [(''x'', NumV 1)], page_span \<mapsto> [(''x'', NumV 2)],
        page_em \<mapsto> [(''x'', NumV 3)]]\<rparr>"

section \<open>Auxiliary facts\<close>

lemma items_push: "items (push this n) = items this @ [n]"
  by (simp add: push_def)

lemma add_outside:
  "\<not> isElement x \<Longrightarrow> \<not> isArray x \<Longrightarrow> \<not> instanceof_DOM x \<Longrightarrow> add this x = this"
  by (cases x) auto

lemma append_not_string: "\<not> isString html \<Longrightarrow> append_DOM H S this html = Inl TypeError"
  by (cases html) (simp_all add: append_DOM_def)

lemma trim_spaces:
  assumes "\<forall>c \<in> set s. is_space c"
  shows "trim s = []"
  using assms by (auto simp add: trim_def dest: set_dropWhileD)

lemma parseSpaces_blank: "\<forall>c \<in> set s. is_space c \<Longrightarrow> parseSpaces s = [[]]"
  by (simp add: parseSpaces_def trim_spaces)

lemma addClass_blank:
  assumes "items this \<noteq> []" and "\<forall>c \<in> set cls. is_space c"
  shows "addClass S this cls =
           Inl (if instanceof_Element (hd (items this)) then SyntaxError else TypeError)"
proof -
  from assms(1) obtain n ns where "items this = n # ns"
    by (cases "items this") auto
  then show ?thesis
    by (simp add: addClass_def parseSpaces_blank [OF assms(2)] each_def classList_add_def)
qed

lemma removeClass_blank:
  assumes "items this \<noteq> []" and "\<forall>c \<in> set cls. is_space c"
  shows "removeClass S this cls =
           Inl (if instanceof_Element (hd (items this)) then SyntaxError else TypeError)"
proof -
  from assms(1) obtain n ns where "items this = n # ns"
    by (cases "items this") auto
  then show ?thesis
    by (simp add: removeClass_def parseSpaces_blank [OF assms(2)] each_def classList_remove_def)
qed

lemma get_single: "items this = [n] \<Longrightarrow> get this 0 = NodeV n"
  by (simp add: get_def at_index_def)

lemma attr_get_single:
  "items this = [n] \<Longrightarrow> instanceof_Element n \<Longrightarrow>
   attr H S this key Undefined =
     Inr (S, case attributes S n (attrName n key) of None \<Rightarrow> Null | Some v \<Rightarrow> StrV v)"
  by (simp add: attr_def get_single getAttribute_def)

lemma attr_get_other:
  "length (items this) \<noteq> 1 \<Longrightarrow> attr H S this key Undefined = Inr (S, Undefined)"
  by (simp add: attr_def)

lemma setAttribute_all:
  assumes "validName H key"
  shows "\<forall>m \<in> set ms. instanceof_Element m \<Longrightarrow>
    \<exists>S'. forEach (\<lambda>element S'. setAttribute H S' element key v) ms S = Inr S' \<and>
         (\<forall>m. m \<in> set ms \<or> attributes S m (attrName m key) = Some v
              \<longrightarrow> attributes S' m (attrName m key) = Some v)"
proof (induction ms arbitrary: S)
  case Nil
  then show ?case by simp
next
  case (Cons a ms)
  let ?S1 = "S\<lparr>attributes := (attributes S)(a := (attributes S a)(attrName a key \<mapsto> v))\<rparr>"
  from Cons.prems have a: "setAttribute H S a key v = Inr ?S1"
    by (simp add: setAttribute_def assms)
  from Cons.prems have "\<forall>m \<in> set ms. instanceof_Element m" by simp
  from Cons.IH [OF this, of ?S1] obtain S' where
    S': "forEach (\<lambda>element S'. setAttribute H S' element key v) ms ?S1 = Inr S'"
    and k: "\<forall>m. m \<in> set ms \<or> attributes ?S1 m (attrName m key) = Some v
              \<longrightarrow> attributes S' m (attrName m key) = Some v"
    by blast
  have "\<forall>m. m \<in> set (a # ms) \<or> attributes S m (attrName m key) = Some v
              \<longrightarrow> attributes S' m (attrName m key) = Some v"
    using k by auto
  then show ?case
    using a S' by auto
qed

lemma init_plain:
  "\<not> isString sel \<Longrightarrow>
   init H S sel (document_value S) =
     Inr (add (DOM [] [] (if truthy sel then sel else StrV []) (document_value S)) sel)"
  by (cases sel)
    (auto simp add: init.simps dollar.simps document_value_def Let_def split: option.splits)

lemma dollar_plain:
  "\<not> isString sel \<Longrightarrow> \<not> instanceof_DOM sel \<Longrightarrow>
   dollar H S sel Undefined =
     Inr (add (DOM [] [] (if truthy sel then sel else StrV []) (document_value S)) sel)"
  using init_plain [of sel H S] by (cases sel) (simp_all add: dollar.simps)

lemma dollar_node:
  "dollar H S (NodeV m) Undefined =
     Inr (DOM (if isElement (NodeV m) then [m] else []) [] (NodeV m) (document_value S))"
  by (simp add: dollar_plain push_def)

lemma dollar_undefined:
  "dollar H S Undefined Undefined = Inr (DOM [] [] (StrV []) (document_value S))"
  by (simp add: dollar_plain)

lemma element_isElement: "instanceof_Element m \<Longrightarrow> isElement (NodeV m)"
  by (cases m) (auto simp add: instanceof_Element_def instanceof_Node_def)

lemma fold_add_ok:
  "(\<And>x t. x \<in> set xs \<Longrightarrow> members_ok t \<Longrightarrow> members_ok (add t x)) \<Longrightarrow>
   members_ok this \<Longrightarrow> members_ok (fold (\<lambda>x t. add t x) xs this)"
  by (induction xs arbitrary: this) simp_all

lemma add_ok: "members_ok this \<Longrightarrow> members_ok (add this x)"
proof (induction this x rule: add.induct)
  case (1 this n)
  then show ?case
    by (auto simp add: members_ok_def push_def simp del: isElement.simps)
next
  case (2 this xs)
  then show ?case
    by (simp add: fold_add_ok)
next
  case (3 this d)
  have "members_ok (fold (\<lambda>n t. add t (NodeV n)) ns t)" if "set ns \<subseteq> set (items d)" "members_ok t" for ns t
    using that
  proof (induction ns arbitrary: t)
    case Nil
    then show ?case by simp
  next
    case (Cons a ns)
    then show ?case using 3(1) by simp
  qed
  with 3(2) show ?case
    by simp
qed (simp_all)

lemma each_add_ok:
  "forEach (\<lambda>element t. Inr (add t (NodeV element))) ns this = Inr t' \<Longrightarrow>
   members_ok this \<Longrightarrow> members_ok t'"
  by (induction ns arbitrary: this) (simp_all add: add_ok del: add.simps)

lemma init_ok: "init H S sel par = Inr d \<Longrightarrow> members_ok d"
proof -
  have e: "members_ok (DOM [] [] a b)" for a b
    by (simp add: members_ok_def)
  assume "init H S sel par = Inr d"
  then show ?thesis
    by (auto simp add: init.simps Let_def each_def e add_ok simp del: add.simps
        split: if_splits sum.splits jsval.splits dest: each_add_ok [OF _ e])
qed

lemma property_assign: "property (assign rec k v) k = v"
  by (induction rec k v rule: assign.induct) (simp_all add: property_def)

lemma data_get:
  "items this = [n] \<Longrightarrow>
   data H S this key Undefined =
     (let S1 = (if privateData S n = None then S\<lparr>privateData := (privateData S)(n \<mapsto> [])\<rparr> else S);
          rec = (case privateData S n of None \<Rightarrow> [] | Some r \<Rightarrow> r)
      in if key \<noteq> Undefined then Inr (S1, property rec (toString H key)) else Inr (S1, ObjV rec))"
  by (auto simp add: data.simps get_single Let_def split: option.splits)

lemma data_set:
  assumes "items this = [n]" and "isElement (NodeV n)" and "value \<noteq> Undefined"
  shows "data H S this key value =
     Inr (S\<lparr>privateData := (privateData S)
             (n \<mapsto> assign (case privateData S n of None \<Rightarrow> [] | Some r \<Rightarrow> r)
                    (toString H key) value)\<rparr>, DOMV this)"
proof -
  have "data H S (DOM [n] [] (NodeV n) (document_value S)) Undefined Undefined =
     Inr (if privateData S n = None then S\<lparr>privateData := (privateData S)(n \<mapsto> [])\<rparr> else S,
          ObjV (case privateData S n of None \<Rightarrow> [] | Some r \<Rightarrow> r))"
    by (simp add: data_get Let_def)
  then show ?thesis
    using assms
    by (subst data.simps) (auto simp add: each_def dollar_node simp del: isElement.simps)
qed

lemma below_simps [simp]:
  "below [] = {}"
  "below (t # ts) = set (nodes_of_list (subtrees t)) \<union> below ts"
  "below (f @ g) = below f \<union> below g"
  by (auto simp add: below_def)

lemma nodes_of_list_append [simp]:
  "nodes_of_list (f @ g) = nodes_of_list f @ nodes_of_list g"
  by (induction f) simp_all

lemma nodes_of_label: "set (nodes_of t) = insert (label t) (set (nodes_of_list (subtrees t)))"
  by (cases t) simp

lemma nodes_of_list_split: "set (nodes_of_list ts) = label ` set ts \<union> below ts"
  by (induction ts) (auto simp add: nodes_of_label)

lemma parent_none:
  "(parent_tree n t = None) = (n \<notin> set (nodes_of_list (subtrees t)))"
  "(parent_forest n ts = None) = (n \<notin> below ts)"
  by (induction t and ts rule: nodes_of_nodes_of_list.induct)
    (auto simp add: nodes_of_list_split split: option.splits)

lemma find_none:
  "(find_tree n t = None) = (n \<notin> set (nodes_of t))"
  "(find_forest n ts = None) = (n \<notin> set (nodes_of_list ts))"
  by (induction t and ts rule: nodes_of_nodes_of_list.induct)
    (auto split: option.splits)

lemma find_some:
  "find_tree n t = Some r \<Longrightarrow>
     label r = n \<and> set (nodes_of r) \<subseteq> set (nodes_of t) \<and>
     set (nodes_of_list (subtrees r)) \<subseteq> set (nodes_of_list (subtrees t)) \<and>
     length (nodes_of r) \<le> length (nodes_of t) \<and>
     (distinct (nodes_of t) \<longrightarrow> distinct (nodes_of r))"
  "find_forest n ts = Some r \<Longrightarrow>
     label r = n \<and> set (nodes_of r) \<subseteq> set (nodes_of_list ts) \<and>
     set (nodes_of_list (subtrees r)) \<subseteq> below ts \<and>
     length (nodes_of r) \<le> length (nodes_of_list ts) \<and>
     (distinct (nodes_of_list ts) \<longrightarrow> distinct (nodes_of r))"
proof (induction t and ts rule: nodes_of_nodes_of_list.induct)
  case (1 m ts)
  then show ?case
    by (auto simp add: nodes_of_list_split split: if_splits)
next
  case 2
  then show ?case by simp
next
  case (3 t ts)
  then show ?case
    by (fastforce split: option.splits)
qed

lemma prune_nodes:
  "set (nodes_of_list (subtrees (prune_tree c t))) \<subseteq> set (nodes_of_list (subtrees t)) - {c}
   \<and> label (prune_tree c t) = label t"
  "set (nodes_of_list (prune_forest c ts)) \<subseteq> set (nodes_of_list ts) - {c}
   \<and> below (prune_forest c ts) \<subseteq> below ts"
  by (induction t and ts rule: nodes_of_nodes_of_list.induct)
    (auto simp add: nodes_of_label)

lemma prune_distinct:
  "distinct (nodes_of t) \<Longrightarrow> distinct (nodes_of (prune_tree c t))"
  "distinct (nodes_of_list ts) \<Longrightarrow> distinct (nodes_of_list (prune_forest c ts))"
proof (induction t and ts rule: nodes_of_nodes_of_list.induct)
  case (1 m ts)
  then show ?case
    using prune_nodes(2) [of c ts] by auto
next
  case 2
  then show ?case by simp
next
  case (3 t ts)
  then show ?case
    using prune_nodes(2) [of c ts] prune_nodes(1) [of c t]
    by (auto simp add: nodes_of_label)
qed

lemma prune_disjoint:
  "distinct (nodes_of t) \<Longrightarrow> label t \<noteq> c \<Longrightarrow> find_tree c t = Some r \<Longrightarrow>
     set (nodes_of r) \<inter> set (nodes_of (prune_tree c t)) = {}"
  "distinct (nodes_of_list ts) \<Longrightarrow> find_forest c ts = Some r \<Longrightarrow>
     set (nodes_of r) \<inter> set (nodes_of_list (prune_forest c ts)) = {}"
proof (induction t and ts rule: nodes_of_nodes_of_list.induct)
  case (1 m ts)
  then show ?case
    using find_some(2) [of c ts r] by auto
next
  case 2
  then show ?case by simp
next
  case (3 t ts)
  show ?case
  proof (cases "find_tree c t")
    case None
    with 3 have f: "find_forest c ts = Some r" by simp
    from None have "c \<noteq> label t"
      by (cases t) (auto split: if_splits)
    then show ?thesis
      using 3 f find_some(2) [OF f] prune_nodes(1) [of c t]
      by (auto simp add: nodes_of_label)
  next
    case (Some a)
    with 3 have a: "a = r" by simp
    show ?thesis
    proof (cases "label t = c")
      case True
      then have "r = t"
        using Some a by (cases t) auto
      then show ?thesis
        using True 3(3) prune_nodes(2) [of c ts] by auto
    next
      case False
      then show ?thesis
        using 3 Some a find_some(1) [of c t r] prune_nodes(2) [of c ts]
        by auto
    qed
  qed
qed

lemma find_unique:
  "distinct (nodes_of t) \<Longrightarrow> find_tree m t = Some r \<Longrightarrow> d \<in> set (nodes_of r) \<Longrightarrow>
     find_tree d t = find_tree d r"
  "distinct (nodes_of_list ts) \<Longrightarrow> find_forest m ts = Some r \<Longrightarrow> d \<in> set (nodes_of r) \<Longrightarrow>
     find_forest d ts = find_tree d r"
proof (induction t and ts rule: nodes_of_nodes_of_list.induct)
  case (1 x xs)
  show ?case
  proof (cases "x = m")
    case True
    with 1 show ?thesis by auto
  next
    case False
    with 1 have f: "find_forest m xs = Some r" by simp
    from find_some(2) [OF f] 1(4) have "d \<in> set (nodes_of_list xs)" by auto
    with 1(2) have "d \<noteq> x" by auto
    then show ?thesis
      using 1 f by simp
  qed
next
  case 2
  then show ?case by simp
next
  case (3 t ts)
  show ?case
  proof (cases "find_tree m t")
    case None
    with 3 have f: "find_forest m ts = Some r" by simp
    from find_some(2) [OF f] 3(5) have "d \<in> set (nodes_of_list ts)" by auto
    with 3(3) have "d \<notin> set (nodes_of t)" by auto
    then have "find_tree d t = None"
      by (simp add: find_none)
    then show ?thesis
      using 3 f by simp
  next
    case (Some a)
    with 3 have a: "find_tree m t = Some r" by simp
    from find_some(1) [OF a] 3(5) have "d \<in> set (nodes_of t)" by auto
    then have "find_tree d t \<noteq> None"
      by (simp add: find_none)
    then show ?thesis
      using 3 a by (auto split: option.splits)
  qed
qed

lemma edges_forest_append [simp]:
  "edges_forest (f @ g) = edges_forest f \<union> edges_forest g"
  by (induction f) auto

lemma parent_edge:
  "parent_tree x t = Some q \<Longrightarrow> (q, x) \<in> edges_tree t"
  "parent_forest x ts = Some q \<Longrightarrow> (q, x) \<in> edges_forest ts"
  by (induction t and ts rule: nodes_of_nodes_of_list.induct)
    (auto split: if_splits option.splits)

lemma edge_below:
  "(q, x) \<in> edges_tree t \<Longrightarrow> x \<in> set (nodes_of_list (subtrees t))"
  "(q, x) \<in> edges_forest ts \<Longrightarrow> x \<in> below ts"
  by (induction t and ts rule: nodes_of_nodes_of_list.induct)
    (auto simp add: nodes_of_list_split)

lemma labels_not_below:
  "distinct (nodes_of_list ts) \<Longrightarrow> label ` set ts \<inter> below ts = {}"
proof (induction ts)
  case Nil
  then show ?case by simp
next
  case (Cons t ts)
  have "set (nodes_of t) \<inter> set (nodes_of_list ts) = {}" "distinct (nodes_of t)"
    "distinct (nodes_of_list ts)"
    using Cons.prems by auto
  then show ?case
    using Cons.IH by (cases t) (auto simp add: nodes_of_list_split)
qed

lemma edge_parent:
  "distinct (nodes_of t) \<Longrightarrow> (q, x) \<in> edges_tree t \<Longrightarrow> parent_tree x t = Some q"
  "distinct (nodes_of_list ts) \<Longrightarrow> (q, x) \<in> edges_forest ts \<Longrightarrow> parent_forest x ts = Some q"
proof (induction t and ts rule: nodes_of_nodes_of_list.induct)
  case (1 m ts)
  from 1(2) have d: "distinct (nodes_of_list ts)" by simp
  show ?case
  proof (cases "x \<in> label ` set ts")
    case True
    with labels_not_below [OF d] have "x \<notin> below ts" by auto
    with edge_below(2) [of q x ts] have "(q, x) \<notin> edges_forest ts" by auto
    with 1(3) True show ?thesis by auto
  next
    case False
    with 1(3) have "(q, x) \<in> edges_forest ts" by auto
    with 1(1) [OF d] False show ?thesis by auto
  qed
next
  case 2
  then show ?case by simp
next
  case (3 t ts)
  from 3(3) have dt: "distinct (nodes_of t)" and ds: "distinct (nodes_of_list ts)"
    and dj: "set (nodes_of t) \<inter> set (nodes_of_list ts) = {}"
    by auto
  show ?case
  proof (cases "(q, x) \<in> edges_tree t")
    case True
    with 3(1) [OF dt] show ?thesis by simp
  next
    case False
    with 3(4) have e: "(q, x) \<in> edges_forest ts" by simp
    from edge_below(2) [OF e] have "x \<in> set (nodes_of_list ts)"
      by (simp add: nodes_of_list_split)
    with dj have "x \<notin> set (nodes_of_list (subtrees t))"
      by (auto simp add: nodes_of_label)
    then have "parent_tree x t = None"
      by (simp add: parent_none)
    with 3(2) [OF ds e] show ?thesis by simp
  qed
qed

lemma prune_edges:
  "edges_tree (prune_tree c t) \<subseteq> edges_tree t"
  "edges_forest (prune_forest c ts) \<subseteq> edges_forest ts"
proof (induction t and ts rule: nodes_of_nodes_of_list.induct)
  case (1 m ts)
  have "label ` set (prune_forest c ts) \<subseteq> label ` set ts"
  proof (induction ts)
    case Nil
    then show ?case by simp
  next
    case (Cons a ts)
    then show ?case
      using prune_nodes(1) [of c a] by auto
  qed
  with 1 show ?case by auto
next
  case 2
  then show ?case by simp
next
  case (3 t ts)
  then show ?case by auto
qed

lemma find_edges:
  "find_tree c t = Some r \<Longrightarrow> edges_tree r \<subseteq> edges_tree t"
  "find_forest c ts = Some r \<Longrightarrow> edges_tree r \<subseteq> edges_forest ts"
proof (induction t and ts rule: nodes_of_nodes_of_list.induct)
  case (1 m ts)
  then show ?case
    by (auto split: if_splits)
next
  case 2
  then show ?case by simp
next
  case (3 t ts)
  then show ?case
    by (fastforce split: option.splits)
qed

lemma forEach_preserves:
  assumes "\<And>x s s'. f x s = Inr s' \<Longrightarrow> P s' = P s"
  shows "forEach f xs s = Inr s' \<Longrightarrow> P s' = P s"
proof (induction xs arbitrary: s)
  case Nil
  then show ?case by simp
next
  case (Cons x xs)
  then show ?case
    using assms by (fastforce split: sum.splits)
qed

lemma shrinks_refl: "distinct (nodes_of_list (forest S)) \<Longrightarrow> shrinks S S"
  by (simp add: shrinks_def)

lemma shrinks_trans: "shrinks S S1 \<Longrightarrow> shrinks S1 S2 \<Longrightarrow> shrinks S S2"
  by (auto simp add: shrinks_def)

lemma removeChild_ok:
  assumes d: "distinct (nodes_of_list (forest S))" and p: "parentNode S c = Some p"
  shows "\<exists>S'. removeChild S p c = Inr S' \<and> shrinks S S' \<and> c \<notin> below (forest S')"
proof -
  from p have "c \<in> below (forest S)"
    using parent_none(2) [of c "forest S"] by (simp add: parentNode_def)
  then have "c \<in> set (nodes_of_list (forest S))"
    by (simp add: nodes_of_list_split)
  then obtain t where t: "find_forest c (forest S) = Some t"
    using find_none(2) [of c "forest S"] by auto
  let ?S' = "S\<lparr>forest := prune_forest c (forest S) @ [t]\<rparr>"
  note fs = find_some(2) [OF t]
  have r: "removeChild S p c = Inr ?S'"
    using p t by (simp add: removeChild_def)
  have pr: "set (nodes_of_list (prune_forest c (forest S))) \<subseteq> set (nodes_of_list (forest S)) - {c}"
    and pb: "below (prune_forest c (forest S)) \<subseteq> below (forest S)"
    using prune_nodes(2) [of c "forest S"] by auto
  have dt: "distinct (nodes_of t)"
    using fs d by simp
  have ct: "c \<notin> set (nodes_of_list (subtrees t))"
    using dt fs by (cases t) auto
  have cp: "c \<notin> below (prune_forest c (forest S))"
    using pr by (auto simp add: nodes_of_list_split)
  have dis: "distinct (nodes_of_list (forest ?S'))"
    using prune_distinct(2) [OF d, of c] dt prune_disjoint(2) [OF d t] by auto
  have sub: "below (forest ?S') \<subseteq> below (forest S)"
    using pb fs by auto
  have edg: "edges_forest (forest ?S') \<subseteq> edges_forest (forest S)"
    using prune_edges(2) [of c "forest S"] find_edges(2) [OF t] by auto
  have "shrinks S ?S'"
    using dis sub edg by (simp add: shrinks_def)
  moreover have "c \<notin> below (forest ?S')"
    using ct cp by simp
  ultimately show ?thesis
    using r by blast
qed

lemma detach_step_ok:
  assumes d: "distinct (nodes_of_list (forest S))"
  shows "\<exists>S'. (case parentElement S c of None \<Rightarrow> Inr S | Some p \<Rightarrow> removeChild S p c) = Inr S'
              \<and> shrinks S S'
              \<and> (\<forall>p. (p, c) \<in> edges_forest (forest S') \<longrightarrow> \<not> instanceof_Element p)"
proof (cases "parentElement S c")
  case None
  have "\<not> instanceof_Element p" if "(p, c) \<in> edges_forest (forest S)" for p
  proof -
    from edge_parent(2) [OF d that] have "parentNode S c = Some p"
      by (simp add: parentNode_def)
    with None show ?thesis
      by (simp add: parentElement_def split: if_splits)
  qed
  then show ?thesis
    using None shrinks_refl [OF d] by simp
next
  case (Some p)
  then have "parentNode S c = Some p"
    by (auto simp add: parentElement_def split: option.splits if_splits)
  from removeChild_ok [OF d this] obtain S' where
    r: "removeChild S p c = Inr S'" "shrinks S S'" "c \<notin> below (forest S')"
    by blast
  from r(3) have "\<forall>q. (q, c) \<notin> edges_forest (forest S')"
    using edge_below(2) by blast
  with r Some show ?thesis
    by auto
qed

lemma node_remove_ok:
  assumes d: "distinct (nodes_of_list (forest S))" and c: "isChildNode c"
  shows "\<exists>S'. node_remove S c = Inr S' \<and> shrinks S S' \<and> c \<notin> below (forest S')"
proof (cases "parentNode S c")
  case None
  then have "c \<notin> below (forest S)"
    using parent_none(2) [of c "forest S"] by (simp add: parentNode_def)
  then show ?thesis
    using None c shrinks_refl [OF d] by (simp add: node_remove_def)
next
  case (Some p)
  from removeChild_ok [OF d Some] Some c show ?thesis
    by (simp add: node_remove_def)
qed

lemma forEach_shrinks:
  assumes step: "\<And>x S. x \<in> set xs \<Longrightarrow> distinct (nodes_of_list (forest S)) \<Longrightarrow>
                  \<exists>S'. f x S = Inr S' \<and> shrinks S S' \<and> Q x S'"
    and stable: "\<And>x S S'. Q x S \<Longrightarrow> shrinks S S' \<Longrightarrow> Q x S'"
    and d: "distinct (nodes_of_list (forest S))"
  shows "\<exists>S'. forEach f xs S = Inr S' \<and> shrinks S S' \<and> (\<forall>x \<in> set xs. Q x S')"
  using step d
proof (induction xs arbitrary: S)
  case Nil
  then show ?case
    by (simp add: shrinks_refl)
next
  case (Cons a xs)
  from Cons.prems(1) [of a S] Cons.prems(2) obtain S1 where
    a: "f a S = Inr S1" "shrinks S S1" "Q a S1"
    by auto
  then have d1: "distinct (nodes_of_list (forest S1))"
    by (simp add: shrinks_def)
  have "\<exists>S'. forEach f xs S1 = Inr S' \<and> shrinks S1 S' \<and> (\<forall>x \<in> set xs. Q x S')"
    by (rule Cons.IH) (use Cons.prems(1) d1 in auto)
  then obtain S' where s: "forEach f xs S1 = Inr S'" "shrinks S1 S'" "\<forall>x \<in> set xs. Q x S'"
    by blast
  have "Q a S'"
    using stable a(3) s(2) by blast
  then show ?case
    using a s shrinks_trans [OF a(2) s(2)] by auto
qed

lemma element_child: "instanceof_Element m \<Longrightarrow> isChildNode m"
  by (auto simp add: instanceof_Element_def isChildNode_def)

lemma element_parent: "instanceof_Element m \<Longrightarrow> isParentNode m"
  by (auto simp add: instanceof_Element_def isParentNode_def)

text \<open>The three steps after the recursive call.\<close>

lemma remove_tail:
  assumes d: "distinct (nodes_of_list (forest S))"
    and e: "\<forall>m \<in> set (items this). instanceof_Element m"
  shows "\<exists>S2 S3 S4. detach S this = Inr (S2, DOMV this) \<and> cleanUp S2 this = Inr S3 \<and>
              each (\<lambda>element S'. node_remove S' element) this S3 = Inr S4 \<and>
              shrinks S S4 \<and>
              (\<forall>m \<in> set (items this). \<forall>p. parentNode S2 m = Some p \<longrightarrow> \<not> instanceof_Element p) \<and>
              privateData S2 = privateData S \<and>
              forest S3 = forest S2 \<and>
              (\<forall>m \<in> set (items this). privateData S3 m = None) \<and>
              (\<forall>m \<in> set (items this). m \<notin> below (forest S4) \<and> privateData S4 m = None)"
proof -
  let ?step = "\<lambda>element S'. case parentElement S' element of
                       None \<Rightarrow> Inr S' | Some p \<Rightarrow> removeChild S' p element"
  have "\<exists>S2. forEach ?step (items this) S = Inr S2
          \<and> shrinks S S2
          \<and> (\<forall>x \<in> set (items this).
                \<forall>p. (p, x) \<in> edges_forest (forest S2) \<longrightarrow> \<not> instanceof_Element p)"
    by (rule forEach_shrinks) (use d detach_step_ok in \<open>auto simp add: shrinks_def\<close>)
  then obtain S2 where s2: "forEach ?step (items this) S = Inr S2" "shrinks S S2"
    "\<forall>x \<in> set (items this).
        \<forall>p. (p, x) \<in> edges_forest (forest S2) \<longrightarrow> \<not> instanceof_Element p"
    by blast
  then have d2: "distinct (nodes_of_list (forest S2))"
    by (simp add: shrinks_def)
  have det: "detach S this = Inr (S2, DOMV this)"
    using s2(1) by (simp add: detach_def each_def)
  have par2: "\<forall>m \<in> set (items this). \<forall>p. parentNode S2 m = Some p \<longrightarrow> \<not> instanceof_Element p"
    using s2(3) parent_edge(2) by (auto simp add: parentNode_def)
  have "privateData s' = privateData s" if "?step x s = Inr s'" for x s s'
    using that
    by (auto simp add: removeChild_def split: option.splits if_splits)
  from forEach_preserves [where P = privateData and f = ?step, OF this s2(1)]
  have pd2: "privateData S2 = privateData S" .
  let ?purge = "\<lambda>element S'. Inr (S'\<lparr>privateData := (privateData S')(element := None)\<rparr>)"
  have "\<exists>S3. forEach ?purge (items this) S2 = Inr S3
          \<and> shrinks S2 S3 \<and> (\<forall>x \<in> set (items this). privateData S3 x = None)"
    by (rule forEach_shrinks) (use d2 in \<open>auto simp add: shrinks_def\<close>)
  then obtain S3 where s3: "forEach ?purge (items this) S2 = Inr S3" "shrinks S2 S3"
    "\<forall>x \<in> set (items this). privateData S3 x = None"
    by blast
  then have d3: "distinct (nodes_of_list (forest S3))"
    by (simp add: shrinks_def)
  have cl: "cleanUp S2 this = Inr S3"
    using s3(1) by (simp add: cleanUp_def each_def)
  have "forest s' = forest s" if "?purge x s = Inr s'" for x s s'
    using that by auto
  from forEach_preserves [where P = forest and f = ?purge, OF this s3(1)]
  have f3: "forest S3 = forest S2" .
  have "\<exists>S4. forEach (\<lambda>element S'. node_remove S' element) (items this) S3 = Inr S4
          \<and> shrinks S3 S4 \<and> (\<forall>x \<in> set (items this). x \<notin> below (forest S4))"
    by (rule forEach_shrinks)
      (use d3 e node_remove_ok element_child in \<open>auto simp add: shrinks_def\<close>)
  then obtain S4 where s4: "each (\<lambda>element S'. node_remove S' element) this S3 = Inr S4"
    "shrinks S3 S4" "\<forall>x \<in> set (items this). x \<notin> below (forest S4)"
    by (auto simp add: each_def)
  have "shrinks S S4"
    using s2(2) s3(2) s4(2) shrinks_trans by blast
  moreover have "\<forall>m \<in> set (items this). privateData S4 m = None"
    using s3(3) s4(2) by (simp add: shrinks_def)
  ultimately show ?thesis
    using det cl s4(1) par2 pd2 f3 s3(3) s4(3) by blast
qed

lemma add_elements:
  "\<forall>e \<in> set es. instanceof_Element e \<Longrightarrow>
   add c (ArrV (map NodeV es)) =
     DOM (items c @ es) (drop (length es) (stale c)) (selector c) (parent c)"
proof (induction es arbitrary: c)
  case Nil
  then show ?case by simp
next
  case (Cons e es)
  then have "add (push c e) (ArrV (map NodeV es)) =
      DOM (items (push c e) @ es) (drop (length es) (stale (push c e)))
        (selector (push c e)) (parent (push c e))"
    by simp
  moreover have "add c (NodeV e) = push c e"
    using Cons.prems element_isElement [of e] by simp
  ultimately show ?case
    by (simp add: push_def)
qed

lemma querySelectorAll_star:
  "matches_all H \<Longrightarrow> instanceof_Element m \<Longrightarrow>
   querySelectorAll H S m ''*'' = Inr (filter instanceof_Element (descendants S m))"
  by (auto simp add: matches_all_def querySelectorAll_def element_parent split: option.splits)

lemma find_star_loop:
  assumes "matches_all H"
  shows "\<forall>m \<in> set ms. instanceof_Element m \<Longrightarrow>
   forEach (\<lambda>element c.
              case querySelectorAll H S element ''*'' of
                Inl e \<Rightarrow> Inl e
              | Inr elements \<Rightarrow> Inr (add c (ArrV (map NodeV elements)))) ms c
     = Inr (DOM (items c @ element_descendants S ms)
              (drop (length (element_descendants S ms)) (stale c)) (selector c) (parent c))"
proof (induction ms arbitrary: c)
  case Nil
  then show ?case by (simp add: element_descendants_def)
next
  case (Cons m ms)
  have "add c (ArrV (map NodeV (filter instanceof_Element (descendants S m)))) =
      DOM (items c @ filter instanceof_Element (descendants S m))
        (drop (length (filter instanceof_Element (descendants S m))) (stale c))
        (selector c) (parent c)"
    by (rule add_elements) simp
  then show ?case
    using Cons assms
    by (simp add: querySelectorAll_star element_descendants_def add.commute del: add.simps)
qed

lemma find_star:
  "matches_all H \<Longrightarrow> \<forall>m \<in> set (items this). instanceof_Element m \<Longrightarrow>
   find_DOM H S this ''*'' =
     Inr (DOM (element_descendants S (items this)) [] (StrV []) (document_value S))"
  by (simp add: find_DOM.simps dollar_undefined each_def find_star_loop)

lemma descendants_smaller:
  assumes d: "distinct (nodes_of_list (forest S))" and x: "x \<in> set (descendants S m)"
  shows "length (descendants S x) < length (descendants S m)"
proof -
  from x obtain t where t: "find_forest m (forest S) = Some t"
    and xt: "x \<in> set (nodes_of_list (subtrees t))"
    by (cases "find_forest m (forest S)") (auto simp add: descendants_def)
  note fs = find_some(2) [OF t]
  from fs d have dt: "distinct (nodes_of t)" by simp
  from xt have xn: "x \<in> set (nodes_of t)"
    by (simp add: nodes_of_label)
  from dt xt fs have ne: "x \<noteq> label t"
    by (cases t) auto
  have "find_forest x (forest S) = find_tree x t"
    by (rule find_unique(2) [OF d t xn])
  also have "\<dots> = find_forest x (subtrees t)"
    using ne by (cases t) auto
  finally have eq: "find_forest x (forest S) = find_forest x (subtrees t)" .
  from xt obtain r where r: "find_forest x (subtrees t) = Some r"
    using find_none(2) [of x "subtrees t"] by auto
  from find_some(2) [OF r] have "length (nodes_of r) \<le> length (nodes_of_list (subtrees t))"
    by simp
  moreover have "length (nodes_of_list (subtrees r)) < length (nodes_of r)"
    by (cases r) simp
  ultimately show ?thesis
    using t eq r by (simp add: descendants_def)
qed

lemma remove_total:
  assumes H: "matches_all H" and d: "distinct (nodes_of_list (forest S))"
  shows "(\<forall>m \<in> set (items this). instanceof_Element m \<and> length (descendants S m) \<le> n) \<Longrightarrow>
    \<exists>S1 S2 S3 S'.
       (\<forall>fuel. n < fuel \<longrightarrow>
            remove_DOM fuel H S this = Some (Inr (S', truncate_DOM this, DOMV (truncate_DOM this))))
       \<and> (if element_descendants S (items this) = [] then S1 = S
          else \<forall>fuel. n \<le> fuel \<longrightarrow>
                 (\<exists>c r. remove_DOM fuel H S
                    (DOM (element_descendants S (items this)) [] (StrV []) (document_value S))
                      = Some (Inr (S1, c, r))))
       \<and> (\<forall>c \<in> set (element_descendants S (items this)).
             c \<notin> below (forest S1) \<and> privateData S1 c = None)
       \<and> detach S1 this = Inr (S2, DOMV this)
       \<and> (\<forall>m \<in> set (items this). \<forall>p. parentNode S2 m = Some p \<longrightarrow> \<not> instanceof_Element p)
       \<and> privateData S2 = privateData S1
       \<and> cleanUp S2 this = Inr S3
       \<and> forest S3 = forest S2
       \<and> (\<forall>m \<in> set (items this). privateData S3 m = None)
       \<and> each (\<lambda>element S'. node_remove S' element) this S3 = Inr S'
       \<and> shrinks S S1 \<and> shrinks S S'
       \<and> (\<forall>m \<in> set (items this) \<union> set (element_descendants S (items this)).
            m \<notin> below (forest S') \<and> privateData S' m = None)"
proof (induction n arbitrary: this rule: less_induct)
  case (less n)
  let ?cs = "element_descendants S (items this)"
  let ?children = "DOM ?cs [] (StrV []) (document_value S)"
  from less.prems have e: "\<forall>m \<in> set (items this). instanceof_Element m"
    by blast
  have f: "find_DOM H S this ''*'' = Inr ?children"
    by (rule find_star [OF H e])
  have "\<exists>S1. (if ?cs = [] then S1 = S
               else \<forall>k. n \<le> k \<longrightarrow> (\<exists>c r. remove_DOM k H S ?children = Some (Inr (S1, c, r))))
          \<and> shrinks S S1 \<and>
          (\<forall>c \<in> set ?cs. c \<notin> below (forest S1) \<and> privateData S1 c = None)"
  proof (cases "?cs = []")
    case True
    then show ?thesis
      using shrinks_refl [OF d] by auto
  next
    case False
    have b: "instanceof_Element c \<and> length (descendants S c) \<le> n - 1 \<and> 0 < n"
      if "c \<in> set ?cs" for c
    proof -
      from that obtain m where m: "m \<in> set (items this)" "c \<in> set (descendants S m)"
        "instanceof_Element c"
        by (auto simp add: element_descendants_def)
      from descendants_smaller [OF d m(2)] less.prems m(1)
      show ?thesis using m(3) by force
    qed
    from False obtain c0 where "c0 \<in> set ?cs"
      by (cases ?cs) auto
    with b have n: "0 < n" by blast
    then have lt: "n - 1 < n" by simp
    have "\<forall>m \<in> set (items ?children). instanceof_Element m \<and> length (descendants S m) \<le> n - 1"
      using b by simp
    from less.IH [OF lt this] obtain S1 where
      s1: "\<forall>fuel. n - 1 < fuel \<longrightarrow>
             remove_DOM fuel H S ?children =
               Some (Inr (S1, truncate_DOM ?children, DOMV (truncate_DOM ?children)))"
      "shrinks S S1"
      "\<forall>m \<in> set (items ?children) \<union> set (element_descendants S (items ?children)).
          m \<notin> below (forest S1) \<and> privateData S1 m = None"
      by blast
    have "\<forall>k. n \<le> k \<longrightarrow> (\<exists>c r. remove_DOM k H S ?children = Some (Inr (S1, c, r)))"
      using s1(1) n by auto
    then show ?thesis
      using s1(2) s1(3) False by auto
  qed
  then obtain S1 where
    s1: "if ?cs = [] then S1 = S
         else \<forall>k. n \<le> k \<longrightarrow> (\<exists>c r. remove_DOM k H S ?children = Some (Inr (S1, c, r)))"
    "shrinks S S1"
    "\<forall>c \<in> set ?cs. c \<notin> below (forest S1) \<and> privateData S1 c = None"
    by blast
  from s1(2) have d1: "distinct (nodes_of_list (forest S1))"
    by (simp add: shrinks_def)
  from remove_tail [OF d1 e] obtain S2 S3 S4 where
    s4: "detach S1 this = Inr (S2, DOMV this)" "cleanUp S2 this = Inr S3"
    "each (\<lambda>element S'. node_remove S' element) this S3 = Inr S4"
    "shrinks S1 S4"
    "\<forall>m \<in> set (items this). privateData S3 m = None"
    "\<forall>m \<in> set (items this). m \<notin> below (forest S4) \<and> privateData S4 m = None"
    "\<forall>m \<in> set (items this). \<forall>p. parentNode S2 m = Some p \<longrightarrow> \<not> instanceof_Element p"
    "privateData S2 = privateData S1" "forest S3 = forest S2"
    by blast
  have run: "remove_DOM fuel H S this =
      Some (Inr (S4, truncate_DOM this, DOMV (truncate_DOM this)))" if "n < fuel" for fuel
  proof -
    from that obtain k where k: "fuel = Suc k" "n \<le> k"
      by (cases fuel) auto
    have "\<exists>c r. (if length (items ?children) \<noteq> 0 then remove_DOM k H S ?children
                     else Some (Inr (S, ?children, Undefined))) = Some (Inr (S1, c, r))"
      using s1(1) k(2) by (cases "?cs = []") auto
    then obtain c r where "(if length (items ?children) \<noteq> 0 then remove_DOM k H S ?children
                     else Some (Inr (S, ?children, Undefined))) = Some (Inr (S1, c, r))"
      by blast
    then show ?thesis
      unfolding k(1) remove_DOM.simps f using s4(1) s4(2) s4(3) by simp
  qed
  have "shrinks S S4"
    using s1(2) s4(4) by (rule shrinks_trans)
  moreover have "\<forall>c \<in> set ?cs. c \<notin> below (forest S4) \<and> privateData S4 c = None"
    using s1(3) s4(4) by (auto simp add: shrinks_def)
  ultimately show ?case
    using run s1 s4 by blast
qed


lemma addClass_returns: "addClass S this cls = Inr (S', r) \<Longrightarrow> r = DOMV this"
  by (auto simp add: addClass_def Let_def split: sum.splits)

lemma removeClass_returns: "removeClass S this cls = Inr (S', r) \<Longrightarrow> r = DOMV this"
  by (auto simp add: removeClass_def Let_def split: sum.splits)

lemma on_returns: "on S this events callback = Inr (S', r) \<Longrightarrow> r = DOMV this"
  by (auto simp add: on_def Let_def split: sum.splits if_splits)

lemma off_returns: "off S this events callback = Inr (S', r) \<Longrightarrow> r = DOMV this"
  by (auto simp add: off_def Let_def split: sum.splits if_splits)

lemma detach_returns: "detach S this = Inr (S', r) \<Longrightarrow> r = DOMV this"
  by (auto simp add: detach_def split: sum.splits)

lemma css_returns: "css H S this rule value = Inr (S', r) \<Longrightarrow> r = DOMV this"
  by (subst (asm) css.simps) (auto split: sum.splits if_splits)

lemma data_set_returns:
  "value \<noteq> Undefined \<Longrightarrow> data H S this key value = Inr (S', r) \<Longrightarrow> r = DOMV this"
  by (subst (asm) data.simps) (auto split: sum.splits)

lemma attr_set_returns:
  "value \<noteq> Undefined \<Longrightarrow> attr H S this key value = Inr (S', r) \<Longrightarrow> r = Undefined"
  by (auto simp add: attr_def split: sum.splits)

lemma append_returns: "append_DOM H S this html = Inr (S', r) \<Longrightarrow> r = DOMV this"
  by (cases html) (auto simp add: append_DOM_def split: sum.splits jsval.splits)

lemma remove_returns:
  "remove_DOM fuel H S this = Some (Inr (S', c, r)) \<Longrightarrow> c = truncate_DOM this \<and> r = DOMV c"
  by (cases fuel) (auto split: sum.splits option.splits if_splits)

text \<open>Facts about the example page.\<close>

lemmas page_nodes = page_document_def page_html_def page_body_def page_div_def page_span_def
  page_em_def page_text_def

lemma example_page_loaded: "load example_host example_page = Inr example_page"
  by (simp add: load_def example_page_def page_nodes dollar.simps init.simps document_value_def
      push_def instanceof_HTMLDocument_def)

lemma example_host_matches_all: "matches_all example_host"
  by (simp add: matches_all_def example_host_def)

lemma example_page_wf: "wf_page example_page" "wf_page example_page_data"
  by (simp_all add: wf_page_def example_page_data_def example_page_def page_nodes
      instanceof_Element_def)


lemma completes: "(case m of Inl e \<Rightarrow> False | Inr x \<Rightarrow> True) \<Longrightarrow> \<exists>S' r. m = Inr (S', r)"
  by (cases m) auto

section \<open>The claims\<close>



text \<open>
  C2. The claim is that \<^verbatim>\<open>append(x)\<close>, for \<^verbatim>\<open>x\<close> an element, an array or a collection,
  appends \<^verbatim>\<open>x\<close> to the first member and completes without error. The code does not: for
  every argument that is not a string the test \<^verbatim>\<open>!html instanceof DOM\<close> is false, the
  variable \<^verbatim>\<open>element\<close> stays \<^verbatim>\<open>undefined\<close>, and the call ends with a \<^verbatim>\<open>TypeError\<close>
  for every collection and every page.
\<close>

theorem append_non_string_throws:
  "\<not> isString html \<Longrightarrow> append_DOM H S this html = Inl TypeError"
  by (rule append_not_string)

theorem append_non_string_throws_witness:
  "append_DOM example_host example_page (DOM [page_div, page_span] [] (StrV []) Undefined)
     (NodeV page_em) = Inl TypeError \<and>
   append_DOM example_host example_page (DOM [page_div] [] (StrV []) Undefined)
     (DOMV (DOM [page_em] [] (StrV []) Undefined)) = Inl TypeError \<and>
   append_DOM example_host example_page (DOM [page_div] [] (StrV []) Undefined)
     (ArrV [NodeV page_em]) = Inl TypeError"
  using append_non_string_throws [of "NodeV page_em" example_host example_page
      "DOM [page_div, page_span] [] (StrV []) Undefined"]
    append_non_string_throws [of "DOMV (DOM [page_em] [] (StrV []) Undefined)" example_host
      example_page "DOM [page_div] [] (StrV []) Undefined"]
    append_non_string_throws [of "ArrV [NodeV page_em]" example_host
      example_page "DOM [page_div] [] (StrV []) Undefined"]
  by simp

text \<open>
  C3. Private data belongs to the element, not to the collection. After
  \<^verbatim>\<open>data(k, v)\<close> on a collection whose one member is the element \<open>n\<close>, the new collection
  \<^verbatim>\<open>$(n)\<close> has \<open>n\<close> as its one member and \<^verbatim>\<open>data(k)\<close> on it returns \<open>v\<close>. After
  \<^verbatim>\<open>remove()\<close> on that collection (which returns, for every amount of fuel above a
  bound), \<^verbatim>\<open>data(k)\<close> on a new collection \<^verbatim>\<open>$(n)\<close> returns \<^verbatim>\<open>undefined\<close>.
\<close>

theorem data_round_trip_and_purge:
  assumes H: "matches_all H" and wf: "wf_page S" and i: "items this = [n]"
    and e: "instanceof_Element n" and v: "v \<noteq> Undefined"
  shows "\<exists>S1 c. data H S this (StrV k) v = Inr (S1, DOMV this) \<and>
           dollar H S1 (NodeV n) Undefined = Inr c \<and> items c = [n] \<and>
           data H S1 c (StrV k) Undefined = Inr (S1, v) \<and>
           (\<exists>b S2 c2. (\<forall>fuel > b. \<exists>t r. remove_DOM fuel H S1 c = Some (Inr (S2, t, r))) \<and>
              dollar H S2 (NodeV n) Undefined = Inr c2 \<and> items c2 = [n] \<and>
              (\<exists>S3. data H S2 c2 (StrV k) Undefined = Inr (S3, Undefined)))"
proof -
  define S1 where
    "S1 = S\<lparr>privateData := (privateData S)
             (n \<mapsto> assign (case privateData S n of None \<Rightarrow> [] | Some r \<Rightarrow> r) k v)\<rparr>"
  define c where "c = DOM [n] [] (NodeV n) (document_value S1)"
  define b where "b = length (descendants S1 n)"
  have ie: "isElement (NodeV n)"
    by (rule element_isElement [OF e])
  have 1: "data H S this (StrV k) v = Inr (S1, DOMV this)"
    using data_set [OF i ie v, of H S "StrV k"] by (simp add: S1_def)
  have 2: "dollar H S1 (NodeV n) Undefined = Inr c" "items c = [n]"
    using ie by (simp_all add: dollar_node c_def del: isElement.simps)
  have 3: "data H S1 c (StrV k) Undefined = Inr (S1, v)"
    by (simp add: data_get property_assign c_def S1_def)
  have d1: "distinct (nodes_of_list (forest S1))"
    using wf by (simp add: wf_page_def S1_def)
  have "\<forall>m \<in> set (items c). instanceof_Element m \<and> length (descendants S1 m) \<le> b"
    using e by (simp add: c_def b_def)
  from remove_total [OF H d1 this] obtain S2 where
    r: "\<forall>fuel. b < fuel \<longrightarrow> remove_DOM fuel H S1 c =
                   Some (Inr (S2, truncate_DOM c, DOMV (truncate_DOM c)))"
    "\<forall>x \<in> set (items c) \<union> set (element_descendants S1 (items c)). 
        x \<notin> below (forest S2) \<and> privateData S2 x = None"
    by blast
  define c2 where "c2 = DOM [n] [] (NodeV n) (document_value S2)"
  have 4: "dollar H S2 (NodeV n) Undefined = Inr c2" "items c2 = [n]"
    using ie by (simp_all add: dollar_node c2_def del: isElement.simps)
  from r(2) have "privateData S2 n = None"
    by (simp add: c_def)
  then have 5: "\<exists>S3. data H S2 c2 (StrV k) Undefined = Inr (S3, Undefined)"
    by (simp add: data_get property_def c2_def)
  have 6: "\<forall>fuel > b. \<exists>t r. remove_DOM fuel H S1 c = Some (Inr (S2, t, r))"
    using r(1) by simp
  have "\<exists>b S2 c2. (\<forall>fuel > b. \<exists>t r. remove_DOM fuel H S1 c = Some (Inr (S2, t, r))) \<and>
              dollar H S2 (NodeV n) Undefined = Inr c2 \<and> items c2 = [n] \<and>
              (\<exists>S3. data H S2 c2 (StrV k) Undefined = Inr (S3, Undefined))"
    using 4 5 6 by blast
  with 1 2 3 show ?thesis
    by blast
qed

theorem data_round_trip_and_purge_witness:
  "\<exists>S1 c. data example_host example_page (DOM [page_div] [] (StrV []) Undefined) (StrV ''x'') (NumV 123)
             = Inr (S1, DOMV (DOM [page_div] [] (StrV []) Undefined)) \<and>
           dollar example_host S1 (NodeV page_div) Undefined = Inr c \<and> items c = [page_div] \<and>
           data example_host S1 c (StrV ''x'') Undefined = Inr (S1, NumV 123) \<and>
           (\<exists>b S2 c2. (\<forall>fuel > b. \<exists>t r. remove_DOM fuel example_host S1 c = Some (Inr (S2, t, r))) \<and>
              dollar example_host S2 (NodeV page_div) Undefined = Inr c2 \<and> items c2 = [page_div] \<and>
              (\<exists>S3. data example_host S2 c2 (StrV ''x'') Undefined = Inr (S3, Undefined)))"
proof -
  have e: "instanceof_Element page_div"
    by (simp add: page_nodes instanceof_Element_def)
  have i: "items (DOM [page_div] [] (StrV []) Undefined) = [page_div]"
    by simp
  have v: "NumV 123 \<noteq> Undefined"
    by simp
  show ?thesis
    by (rule data_round_trip_and_purge [OF example_host_matches_all example_page_wf(1) i e v])
qed

text \<open>
  C4, as stated, fails: the claim words the test on the members as "is a DOM element, or
  the document itself", and \<^verbatim>\<open>add\<close> takes a text node, which is neither.
\<close>

theorem text_node_member:
  "items (add (DOM [] [] (StrV []) Undefined) (NodeV (Node Text 1))) = [Node Text 1] \<and>
   \<not> element_or_document (Node Text 1)"
  by (simp add: push_def element_or_document_def instanceof_Element_def
      instanceof_HTMLDocument_def instanceof_Node_def)

text \<open>
  C4, amended. Every member of a collection passes \<^verbatim>\<open>isElement\<close>, that is, it is the
  HTML document, an element or a text node. \<^verbatim>\<open>add\<close> keeps that, whatever it is given;
  a collection made by \<^verbatim>\<open>init\<close> (or by \<^verbatim>\<open>$\<close> from anything but a collection) has it;
  and an input that fails \<^verbatim>\<open>isElement\<close> and is neither an array nor a collection is
  dropped by \<^verbatim>\<open>add\<close> and, unless it is a selector string, by the construction, which
  then gives the empty collection.
\<close>

theorem members_pass_isElement:
  "(members_ok c \<longrightarrow> members_ok (add c x)) \<and>
   (init H S sel par = Inr d \<longrightarrow> members_ok d) \<and>
   (\<not> instanceof_DOM sel \<and> dollar H S sel par = Inr d \<longrightarrow> members_ok d) \<and>
   (\<not> isElement x \<and> \<not> isArray x \<and> \<not> instanceof_DOM x \<longrightarrow> add c x = c) \<and>
   (\<not> isElement x \<and> \<not> isArray x \<and> \<not> instanceof_DOM x \<and> \<not> isString x \<longrightarrow>
      (\<exists>e. dollar H S x Undefined = Inr e \<and> items e = []))"
proof (intro conjI impI)
  show "members_ok c \<Longrightarrow> members_ok (add c x)"
    by (rule add_ok)
  show "init H S sel par = Inr d \<Longrightarrow> members_ok d"
    by (rule init_ok)
  show "\<not> instanceof_DOM sel \<and> dollar H S sel par = Inr d \<Longrightarrow> members_ok d"
    by (cases sel) (auto simp add: dollar.simps dest: init_ok)
  show "\<not> isElement x \<and> \<not> isArray x \<and> \<not> instanceof_DOM x \<Longrightarrow> add c x = c"
    by (simp add: add_outside)
  show "\<exists>e. dollar H S x Undefined = Inr e \<and> items e = []"
    if "\<not> isElement x \<and> \<not> isArray x \<and> \<not> instanceof_DOM x \<and> \<not> isString x"
    using that by (simp add: dollar_plain add_outside del: add.simps isElement.simps)
qed

theorem members_pass_isElement_witness:
  "members_ok (DOM [page_div] [] (StrV []) Undefined) \<and>
   add (DOM [page_div] [] (StrV []) Undefined)
     (ArrV [NodeV page_text, NumV 5, NodeV (Node Comment 7), ArrV [NodeV page_document]])
     = DOM [page_div, page_text, page_document] [] (StrV []) Undefined \<and>
   members_ok (DOM [page_div, page_text, page_document] [] (StrV []) Undefined) \<and>
   add (DOM [page_div] [] (StrV []) Undefined) (NodeV (Node Comment 7))
     = DOM [page_div] [] (StrV []) Undefined \<and>
   (\<exists>e. dollar example_host example_page (NodeV (Node Comment 7)) Undefined = Inr e \<and>
        items e = [])"
proof -
  let ?c = "DOM [page_div] [] (StrV []) Undefined"
  let ?x = "ArrV [NodeV page_text, NumV 5, NodeV (Node Comment 7), ArrV [NodeV page_document]]"
  have m: "members_ok ?c"
    by (simp add: members_ok_def page_nodes instanceof_HTMLDocument_def instanceof_Node_def)
  have a: "add ?c ?x = DOM [page_div, page_text, page_document] [] (StrV []) Undefined"
    by (simp add: page_nodes push_def instanceof_HTMLDocument_def instanceof_Node_def
        instanceof_HTMLElement_def)
  have n: "\<not> isElement (NodeV (Node Comment 7)) \<and> \<not> isArray (NodeV (Node Comment 7)) \<and>
      \<not> instanceof_DOM (NodeV (Node Comment 7)) \<and> \<not> isString (NodeV (Node Comment 7))"
    by (simp add: instanceof_HTMLDocument_def instanceof_Node_def instanceof_HTMLElement_def)
  show ?thesis
    using members_pass_isElement [of ?c ?x] m a n
      members_pass_isElement [of ?c "NodeV (Node Comment 7)" example_host example_page]
    by (simp del: add.simps isElement.simps)
qed

text \<open>
  C5. \<^verbatim>\<open>attr(key)\<close> returns \<^verbatim>\<open>undefined\<close> for every collection whose length is not one,
  so it returns a string only for a collection of one member; for a collection of one
  element that has the attribute it returns the string of the attribute.
  \<^verbatim>\<open>attr(key, w)\<close> on a collection of elements, with a well-formed name, sets the
  attribute on every member: afterwards, for every member \<open>m\<close>, \<^verbatim>\<open>$(m).attr(key)\<close> is
  exactly \<open>w\<close>.
\<close>

theorem attr_get_set:
  "(length (items this) \<noteq> 1 \<longrightarrow> attr H S this key Undefined = Inr (S, Undefined)) \<and>
   (attr H S this key Undefined = Inr (T, StrV u) \<longrightarrow> length (items this) = 1) \<and>
   (items this = [n] \<and> instanceof_Element n \<and> attributes S n (attrName n key) = Some v
      \<longrightarrow> attr H S this key Undefined = Inr (S, StrV v)) \<and>
   ((\<forall>m \<in> set (items this). instanceof_Element m) \<and> validName H key
      \<longrightarrow> (\<exists>S'. attr H S this key (StrV w) = Inr (S', Undefined) \<and>
             (\<forall>m \<in> set (items this).
                \<exists>c. dollar H S' (NodeV m) Undefined = Inr c \<and> items c = [m] \<and>
                    attr H S' c key Undefined = Inr (S', StrV w))))"
proof (intro conjI impI)
  show "length (items this) \<noteq> 1 \<Longrightarrow> attr H S this key Undefined = Inr (S, Undefined)"
    by (rule attr_get_other)
next
  assume "attr H S this key Undefined = Inr (T, StrV u)"
  then show "length (items this) = 1"
    using attr_get_other [of this H S key] by (cases "length (items this) = 1") auto
next
  assume "items this = [n] \<and> instanceof_Element n \<and> attributes S n (attrName n key) = Some v"
  then show "attr H S this key Undefined = Inr (S, StrV v)"
    by (simp add: attr_get_single)
next
  assume a: "(\<forall>m \<in> set (items this). instanceof_Element m) \<and> validName H key"
  then obtain S' where
    s: "forEach (\<lambda>element S'. setAttribute H S' element key w) (items this) S = Inr S'"
    and k: "\<forall>m. m \<in> set (items this) \<or> attributes S m (attrName m key) = Some w
              \<longrightarrow> attributes S' m (attrName m key) = Some w"
    using setAttribute_all [of H key "items this" w S] by blast
  have 1: "attr H S this key (StrV w) = Inr (S', Undefined)"
    using s by (simp add: attr_def each_def)
  have 2: "\<exists>c. dollar H S' (NodeV m) Undefined = Inr c \<and> items c = [m] \<and>
              attr H S' c key Undefined = Inr (S', StrV w)"
    if m: "m \<in> set (items this)" for m
  proof -
    from a m have e: "instanceof_Element m" by blast
    let ?c = "DOM [m] [] (NodeV m) (document_value S')"
    have "dollar H S' (NodeV m) Undefined = Inr ?c"
      using element_isElement [OF e] by (simp add: dollar_node)
    moreover have "attr H S' ?c key Undefined = Inr (S', StrV w)"
      using k m e by (simp add: attr_get_single)
    ultimately show ?thesis by simp
  qed
  from 1 2 show "\<exists>S'. attr H S this key (StrV w) = Inr (S', Undefined) \<and>
             (\<forall>m \<in> set (items this).
                \<exists>c. dollar H S' (NodeV m) Undefined = Inr c \<and> items c = [m] \<and>
                    attr H S' c key Undefined = Inr (S', StrV w))"
    by blast
qed

theorem attr_get_set_witness:
  "attr example_host example_page (DOM [page_div, page_span] [] (StrV []) Undefined) ''k'' Undefined
     = Inr (example_page, Undefined) \<and>
   attr example_host example_page (DOM [] [] (StrV []) Undefined) ''k'' Undefined
     = Inr (example_page, Undefined) \<and>
   (\<exists>S'. attr example_host example_page (DOM [page_div, page_span] [] (StrV []) Undefined)
            ''k'' (StrV ''v'') = Inr (S', Undefined) \<and>
         attributes S' page_span ''k'' = Some ''v'' \<and>
         (\<exists>c. dollar example_host S' (NodeV page_span) Undefined = Inr c \<and> items c = [page_span] \<and>
              attr example_host S' c ''k'' Undefined = Inr (S', StrV ''v'')))"
proof -
  let ?c = "DOM [page_div, page_span] [] (StrV []) Undefined"
  have h: "(\<forall>m \<in> set (items ?c). instanceof_Element m) \<and> validName example_host ''k''"
    by (simp add: page_nodes instanceof_Element_def example_host_def is_ascii_whitespace_def)
  from attr_get_set [of ?c example_host example_page "''k''" _ _ _ _ "''v''"] h
  obtain S' where
    s: "attr example_host example_page ?c ''k'' (StrV ''v'') = Inr (S', Undefined)"
    and g: "\<forall>m \<in> set (items ?c).
                \<exists>c. dollar example_host S' (NodeV m) Undefined = Inr c \<and> items c = [m] \<and>
                    attr example_host S' c ''k'' Undefined = Inr (S', StrV ''v'')"
    by blast
  from g obtain c where
    c: "dollar example_host S' (NodeV page_span) Undefined = Inr c" "items c = [page_span]"
    "attr example_host S' c ''k'' Undefined = Inr (S', StrV ''v'')"
    by auto
  have e: "instanceof_Element page_span"
    by (simp add: page_nodes instanceof_Element_def)
  have lk: "attrName page_span ''k'' = ''k''"
    by code_simp
  from c(2,3) have "attributes S' page_span ''k'' = Some ''v''"
    by (auto simp add: attr_get_single [OF c(2) e] lk split: option.splits)
  moreover have "attr example_host example_page ?c ''k'' Undefined = Inr (example_page, Undefined)"
    using attr_get_set [of ?c example_host example_page "''k''"] by simp
  moreover have "attr example_host example_page (DOM [] [] (StrV []) Undefined) ''k'' Undefined
     = Inr (example_page, Undefined)"
    using attr_get_set [of "DOM [] [] (StrV []) Undefined" example_host example_page "''k''"] by simp
  ultimately show ?thesis
    using s c by blast
qed

text \<open>
  C6. The claim is that \<^verbatim>\<open>addClass\<close> and \<^verbatim>\<open>removeClass\<close> with an empty or blank string
  get an empty list of tokens and change nothing. The code does not: \<^verbatim>\<open>parseSpaces\<close>
  returns the list of one empty token, and on every collection that is not empty the call
  ends with an exception, the \<^verbatim>\<open>SyntaxError\<close> of the token list when the first member is
  an element.
\<close>

theorem blank_class_throws:
  "items this \<noteq> [] \<Longrightarrow> \<forall>c \<in> set cls. is_space c \<Longrightarrow>
   parseSpaces cls = [[]] \<and>
   addClass S this cls =
     Inl (if instanceof_Element (hd (items this)) then SyntaxError else TypeError) \<and>
   removeClass S this cls =
     Inl (if instanceof_Element (hd (items this)) then SyntaxError else TypeError)"
  by (simp add: parseSpaces_blank addClass_blank removeClass_blank)

theorem blank_class_throws_witness:
  "parseSpaces [] = [[]] \<and>
   addClass example_page (DOM [page_div] [] (StrV []) Undefined) [] = Inl SyntaxError \<and>
   removeClass example_page (DOM [page_div] [] (StrV []) Undefined) [] = Inl SyntaxError \<and>
   parseSpaces ''  '' = [[]] \<and>
   addClass example_page (DOM [page_div] [] (StrV []) Undefined) ''  '' = Inl SyntaxError \<and>
   removeClass example_page (DOM [page_div] [] (StrV []) Undefined) ''  '' = Inl SyntaxError"
  using blank_class_throws [of "DOM [page_div] [] (StrV []) Undefined" "[]" example_page]
    blank_class_throws [of "DOM [page_div] [] (StrV []) Undefined" "''  ''" example_page]
  by (simp add: page_div_def instanceof_Element_def is_space_def)

text \<open>
  C7. The claim is that \<^verbatim>\<open>get(index)\<close> returns no value at every index that is at least
  the length. The code does not: the guard of \<^verbatim>\<open>get\<close> is \<^verbatim>\<open>index > this.length\<close>, so at
  the index equal to the length it reads \<^verbatim>\<open>this[index]\<close>, and there it finds the node
  that \<^verbatim>\<open>remove()\<close> has left behind: after \<^verbatim>\<open>remove()\<close> on a collection with a member,
  the length is 0 and \<^verbatim>\<open>get(0)\<close> is the first of the removed members. Below the length
  \<^verbatim>\<open>get\<close> returns the member, and above the length and below 0 it returns
  \<^verbatim>\<open>undefined\<close>.
\<close>

theorem get_reads_past_length:
  "(0 \<le> i \<and> i \<le> int (length (items c)) - 1 \<longrightarrow> get c i = NodeV (items c ! nat i)) \<and>
   (i > int (length (items c)) \<longrightarrow> get c i = Undefined) \<and>
   (i < 0 \<longrightarrow> get c i = Undefined) \<and>
   get c (int (length (items c))) = (case stale c of [] \<Rightarrow> Undefined | n # ns \<Rightarrow> NodeV n) \<and>
   (remove_DOM fuel H S this = Some (Inr (S', d, r)) \<and> items this \<noteq> [] \<longrightarrow>
      length (items d) = 0 \<and> get d 0 = NodeV (hd (items this)))"
proof (intro conjI impI)
  show "get c i = NodeV (items c ! nat i)" if "0 \<le> i \<and> i \<le> int (length (items c)) - 1"
    using that by (auto simp add: get_def at_index_def nth_append)
  show "get c i = Undefined" if "i > int (length (items c))"
    using that by (simp add: get_def)
  show "get c i = Undefined" if "i < 0"
    using that by (simp add: get_def at_index_def)
  show "get c (int (length (items c))) = (case stale c of [] \<Rightarrow> Undefined | n # ns \<Rightarrow> NodeV n)"
    by (cases "stale c") (simp_all add: get_def at_index_def)
  assume a: "remove_DOM fuel H S this = Some (Inr (S', d, r)) \<and> items this \<noteq> []"
  then have d: "d = truncate_DOM this"
    using remove_returns by blast
  show "length (items d) = 0"
    by (simp add: d truncate_DOM_def)
  from a obtain n ns where "items this = n # ns"
    by (cases "items this") auto
  then show "get d 0 = NodeV (hd (items this))"
    by (simp add: d truncate_DOM_def get_def at_index_def)
qed

theorem get_reads_past_length_witness:
  "(\<exists>S' d r. remove_DOM 3 example_host example_page (DOM [page_div] [] (StrV []) Undefined)
                = Some (Inr (S', d, r)) \<and>
             length (items d) = 0 \<and> get d 0 = NodeV page_div) \<and>
   get (DOM [Node HTMLElement 1, Node Text 2] [] (StrV []) Undefined) 1 = NodeV (Node Text 2) \<and>
   get (DOM [Node HTMLElement 1, Node Text 2] [] (StrV []) Undefined) 2 = Undefined \<and>
   get (DOM [Node HTMLElement 1, Node Text 2] [] (StrV []) Undefined) 3 = Undefined \<and>
   get (DOM [Node HTMLElement 1, Node Text 2] [] (StrV []) Undefined) (- 1) = Undefined \<and>
   get (DOM [Node Text 2] [Node HTMLElement 1] (StrV []) Undefined) 1 = NodeV (Node HTMLElement 1)"
proof -
  let ?c = "DOM [page_div] [] (StrV []) Undefined"
  let ?a = "DOM [Node HTMLElement 1, Node Text 2] [] (StrV []) Undefined"
  let ?b = "DOM [Node Text 2] [Node HTMLElement 1] (StrV []) Undefined"
  have "case remove_DOM 3 example_host example_page ?c of Some (Inr x) \<Rightarrow> True | _ \<Rightarrow> False"
    by code_simp
  then obtain S' d r where
    run: "remove_DOM 3 example_host example_page ?c = Some (Inr (S', d, r))"
    by (auto split: option.splits sum.splits)
  with get_reads_past_length [where fuel = 3 and H = example_host and S = example_page
      and this = ?c and S' = S' and d = d and r = r]
  have "length (items d) = 0 \<and> get d 0 = NodeV page_div"
    by simp
  with run have 1: "\<exists>S' d r. remove_DOM 3 example_host example_page ?c = Some (Inr (S', d, r)) \<and>
             length (items d) = 0 \<and> get d 0 = NodeV page_div"
    by blast
  have 2: "get ?a 1 = NodeV (Node Text 2)"
    using get_reads_past_length [of 1 ?a] by simp
  have 3: "get ?a 2 = Undefined"
    using get_reads_past_length [of _ ?a] by simp
  have 4: "get ?a 3 = Undefined"
    using get_reads_past_length [of 3 ?a] by simp
  have 5: "get ?a (- 1) = Undefined"
    using get_reads_past_length [of "- 1" ?a] by simp
  have 6: "get ?b 1 = NodeV (Node HTMLElement 1)"
    using get_reads_past_length [of _ ?b] by simp
  from 1 2 3 4 5 6 show ?thesis
    by (intro conjI)
qed

text \<open>
  C8. For an input \<^verbatim>\<open>e\<close> that passes \<^verbatim>\<open>isElement\<close>, \<^verbatim>\<open>add(e)\<close> makes the collection
  one longer and \<^verbatim>\<open>get(length - 1)\<close> is \<^verbatim>\<open>e\<close> afterwards. For an input that is neither
  such a node, nor an array, nor a collection, \<^verbatim>\<open>add\<close> returns the collection as it was;
  \<^verbatim>\<open>add\<close> has no exception.
\<close>

theorem add_element_length_get:
  "(isElement e \<longrightarrow>
      length (items (add c e)) = length (items c) + 1 \<and>
      get (add c e) (int (length (items (add c e))) - 1) = e) \<and>
   (\<not> isElement x \<and> \<not> isArray x \<and> \<not> instanceof_DOM x \<longrightarrow>
      add c x = c \<and> length (items (add c x)) = length (items c))"
proof (intro conjI impI)
  assume e: "isElement e"
  then obtain n where n: "e = NodeV n"
    by (cases e) simp_all
  from e n have a: "add c e = push c n"
    by simp
  show "length (items (add c e)) = length (items c) + 1"
    unfolding a by (simp add: items_push)
  show "get (add c e) (int (length (items (add c e))) - 1) = e"
    unfolding a by (simp add: items_push get_def at_index_def n nth_append)
next
  assume x: "\<not> isElement x \<and> \<not> isArray x \<and> \<not> instanceof_DOM x"
  then show "add c x = c"
    by (simp add: add_outside)
  then show "length (items (add c x)) = length (items c)"
    by simp
qed

theorem add_element_length_get_witness:
  "length (items (add (DOM [Node Text 2] [] (StrV []) Undefined) (NodeV (Node HTMLElement 1)))) = 2 \<and>
   get (add (DOM [Node Text 2] [] (StrV []) Undefined) (NodeV (Node HTMLElement 1))) 1
     = NodeV (Node HTMLElement 1) \<and>
   add (DOM [Node Text 2] [] (StrV []) Undefined) (NumV 5) = DOM [Node Text 2] [] (StrV []) Undefined"
  using add_element_length_get [of "NodeV (Node HTMLElement 1)"
      "DOM [Node Text 2] [] (StrV []) Undefined" "NumV 5"]
  by (simp add: instanceof_HTMLDocument_def instanceof_Node_def push_def get_def at_index_def)

text \<open>
  C9, as stated, fails: \<^verbatim>\<open>attr(key, value)\<close> completes and its value is \<^verbatim>\<open>undefined\<close>,
  not a collection.
\<close>

theorem attr_set_returns_undefined:
  "map_sum id snd
     (attr example_host example_page (DOM [page_div] [] (StrV []) Undefined) ''k'' (StrV ''v''))
     = Inr Undefined \<and>
   \<not> instanceof_DOM Undefined \<and>
   Undefined \<noteq> DOMV (DOM [page_div] [] (StrV []) Undefined)"
  by (simp add: attr_def each_def setAttribute_def example_host_def page_nodes
      instanceof_Element_def is_ascii_whitespace_def)

text \<open>
  C9, amended. Whenever one of \<^verbatim>\<open>addClass\<close>, \<^verbatim>\<open>removeClass\<close>, \<^verbatim>\<open>css\<close>, \<^verbatim>\<open>data\<close>
  with a value, \<^verbatim>\<open>on\<close>, \<^verbatim>\<open>off\<close>, \<^verbatim>\<open>detach\<close>, \<^verbatim>\<open>append\<close> and \<^verbatim>\<open>remove\<close>
  completes, its value is the collection it was called on (for \<^verbatim>\<open>remove\<close> with the
  length set to zero); \<^verbatim>\<open>attr\<close> with a value returns \<^verbatim>\<open>undefined\<close>.
\<close>

theorem mutators_return_collection:
  "(addClass S this cls = Inr (S', r) \<longrightarrow> r = DOMV this) \<and>
   (removeClass S this cls = Inr (S', r) \<longrightarrow> r = DOMV this) \<and>
   (css H S this rule val = Inr (S', r) \<longrightarrow> r = DOMV this) \<and>
   (val \<noteq> Undefined \<and> data H S this key val = Inr (S', r) \<longrightarrow> r = DOMV this) \<and>
   (on S this events callback = Inr (S', r) \<longrightarrow> r = DOMV this) \<and>
   (off S this events callback = Inr (S', r) \<longrightarrow> r = DOMV this) \<and>
   (detach S this = Inr (S', r) \<longrightarrow> r = DOMV this) \<and>
   (append_DOM H S this html = Inr (S', r) \<longrightarrow> r = DOMV this) \<and>
   (remove_DOM fuel H S this = Some (Inr (S', c, r)) \<longrightarrow> c = truncate_DOM this \<and> r = DOMV c) \<and>
   (val \<noteq> Undefined \<and> attr H S this name val = Inr (S', r) \<longrightarrow> r = Undefined)"
proof (intro conjI impI)
  show "addClass S this cls = Inr (S', r) \<Longrightarrow> r = DOMV this"
    by (rule addClass_returns)
  show "removeClass S this cls = Inr (S', r) \<Longrightarrow> r = DOMV this"
    by (rule removeClass_returns)
  show "css H S this rule val = Inr (S', r) \<Longrightarrow> r = DOMV this"
    by (rule css_returns)
  show "val \<noteq> Undefined \<and> data H S this key val = Inr (S', r) \<Longrightarrow> r = DOMV this"
    using data_set_returns by blast
  show "on S this events callback = Inr (S', r) \<Longrightarrow> r = DOMV this"
    by (rule on_returns)
  show "off S this events callback = Inr (S', r) \<Longrightarrow> r = DOMV this"
    by (rule off_returns)
  show "detach S this = Inr (S', r) \<Longrightarrow> r = DOMV this"
    by (rule detach_returns)
  show "append_DOM H S this html = Inr (S', r) \<Longrightarrow> r = DOMV this"
    by (rule append_returns)
  show "remove_DOM fuel H S this = Some (Inr (S', c, r)) \<Longrightarrow> c = truncate_DOM this"
    using remove_returns by blast
  show "remove_DOM fuel H S this = Some (Inr (S', c, r)) \<Longrightarrow> r = DOMV c"
    using remove_returns by blast
  show "val \<noteq> Undefined \<and> attr H S this name val = Inr (S', r) \<Longrightarrow> r = Undefined"
    using attr_set_returns by blast
qed

theorem mutators_return_collection_witness:
  "(\<exists>S'. addClass example_page (DOM [page_div, page_span] [] (StrV []) Undefined) ''a b''
           = Inr (S', DOMV (DOM [page_div, page_span] [] (StrV []) Undefined))) \<and>
   (\<exists>S'. removeClass example_page (DOM [page_div, page_span] [] (StrV []) Undefined) ''a b''
           = Inr (S', DOMV (DOM [page_div, page_span] [] (StrV []) Undefined))) \<and>
   (\<exists>S'. css example_host example_page (DOM [page_div, page_span] [] (StrV []) Undefined)
            (RuleObject [(''top'', StrV ''1px''), (''left'', StrV ''2px'')]) Undefined
           = Inr (S', DOMV (DOM [page_div, page_span] [] (StrV []) Undefined))) \<and>
   (\<exists>S'. data example_host example_page (DOM [page_div, page_span] [] (StrV []) Undefined)
            (StrV ''x'') (NumV 123)
           = Inr (S', DOMV (DOM [page_div, page_span] [] (StrV []) Undefined))) \<and>
   (\<exists>S'. on example_page (DOM [page_div, page_span] [] (StrV []) Undefined) ''mousedown'' (FunV 1)
           = Inr (S', DOMV (DOM [page_div, page_span] [] (StrV []) Undefined))) \<and>
   (\<exists>S'. off example_page (DOM [page_div, page_span] [] (StrV []) Undefined) ''mousedown'' (FunV 1)
           = Inr (S', DOMV (DOM [page_div, page_span] [] (StrV []) Undefined))) \<and>
   (\<exists>S'. detach example_page (DOM [page_div, page_span] [] (StrV []) Undefined)
           = Inr (S', DOMV (DOM [page_div, page_span] [] (StrV []) Undefined))) \<and>
   (\<exists>S'. append_DOM example_host example_page (DOM [page_div, page_span] [] (StrV []) Undefined)
            (StrV ''<span>x</span>'')
           = Inr (S', DOMV (DOM [page_div, page_span] [] (StrV []) Undefined))) \<and>
   (\<exists>S'. remove_DOM 3 example_host example_page (DOM [page_div, page_span] [] (StrV []) Undefined)
           = Some (Inr (S', DOM [] [page_div, page_span] (StrV []) Undefined,
                             DOMV (DOM [] [page_div, page_span] (StrV []) Undefined)))) \<and>
   (\<exists>S'. attr example_host example_page (DOM [page_div, page_span] [] (StrV []) Undefined)
            ''k'' (StrV ''v'') = Inr (S', Undefined))"
proof -
  let ?c = "DOM [page_div, page_span] [] (StrV []) Undefined"
  note t = mutators_return_collection [where this = ?c and S = example_page and H = example_host]
  have "case addClass example_page ?c ''a b'' of Inl e \<Rightarrow> False | Inr x \<Rightarrow> True"
    by code_simp
  from completes [OF this] have 1: "\<exists>S'. addClass example_page ?c ''a b'' = Inr (S', DOMV ?c)"
    using t [where cls = "''a b''"] by blast
  have "case removeClass example_page ?c ''a b'' of Inl e \<Rightarrow> False | Inr x \<Rightarrow> True"
    by code_simp
  from completes [OF this] have 2: "\<exists>S'. removeClass example_page ?c ''a b'' = Inr (S', DOMV ?c)"
    using t [where cls = "''a b''"] by blast
  let ?rule = "RuleObject [(''top'', StrV ''1px''), (''left'', StrV ''2px'')]"
  have "case css example_host example_page ?c ?rule Undefined of Inl e \<Rightarrow> False | Inr x \<Rightarrow> True"
    by code_simp
  from completes [OF this]
  have 3: "\<exists>S'. css example_host example_page ?c ?rule Undefined = Inr (S', DOMV ?c)"
    using t [where rule = ?rule and val = Undefined] by blast
  have "case data example_host example_page ?c (StrV ''x'') (NumV 123) of
          Inl e \<Rightarrow> False | Inr x \<Rightarrow> True"
    by code_simp
  from completes [OF this]
  have 4: "\<exists>S'. data example_host example_page ?c (StrV ''x'') (NumV 123) = Inr (S', DOMV ?c)"
    using t [where key = "StrV ''x''" and val = "NumV 123"] by auto
  have "case on example_page ?c ''mousedown'' (FunV 1) of Inl e \<Rightarrow> False | Inr x \<Rightarrow> True"
    by code_simp
  from completes [OF this]
  have 5: "\<exists>S'. on example_page ?c ''mousedown'' (FunV 1) = Inr (S', DOMV ?c)"
    using t [where events = "''mousedown''" and callback = "FunV 1"] by blast
  have "case off example_page ?c ''mousedown'' (FunV 1) of Inl e \<Rightarrow> False | Inr x \<Rightarrow> True"
    by code_simp
  from completes [OF this]
  have 6: "\<exists>S'. off example_page ?c ''mousedown'' (FunV 1) = Inr (S', DOMV ?c)"
    using t [where events = "''mousedown''" and callback = "FunV 1"] by blast
  have "case detach example_page ?c of Inl e \<Rightarrow> False | Inr x \<Rightarrow> True"
    by code_simp
  from completes [OF this]
  have 7: "\<exists>S'. detach example_page ?c = Inr (S', DOMV ?c)"
    using t by blast
  have "case append_DOM example_host example_page ?c (StrV ''<span>x</span>'') of
          Inl e \<Rightarrow> False | Inr x \<Rightarrow> True"
    by code_simp
  from completes [OF this]
  have 8: "\<exists>S'. append_DOM example_host example_page ?c (StrV ''<span>x</span>'')
                 = Inr (S', DOMV ?c)"
    using t [where html = "StrV ''<span>x</span>''"] by blast
  have "case remove_DOM 3 example_host example_page ?c of
          Some (Inr x) \<Rightarrow> True | _ \<Rightarrow> False"
    by code_simp
  then obtain S' c r where "remove_DOM 3 example_host example_page ?c = Some (Inr (S', c, r))"
    by (auto split: option.splits sum.splits)
  then have 9: "\<exists>S'. remove_DOM 3 example_host example_page ?c
                 = Some (Inr (S', DOM [] [page_div, page_span] (StrV []) Undefined,
                             DOMV (DOM [] [page_div, page_span] (StrV []) Undefined)))"
    using t [where fuel = 3 and S' = S' and c = c and r = r] by (auto simp add: truncate_DOM_def)
  have "case attr example_host example_page ?c ''k'' (StrV ''v'') of
          Inl e \<Rightarrow> False | Inr x \<Rightarrow> True"
    by code_simp
  from completes [OF this]
  have 10: "\<exists>S'. attr example_host example_page ?c ''k'' (StrV ''v'') = Inr (S', Undefined)"
    using t [where name = "''k''" and val = "StrV ''v''"] by auto
  from 1 2 3 4 5 6 7 8 9 10 show ?thesis
    by (intro conjI)
qed

text \<open>
  C10. On a collection of one element that does not have the attribute, \<^verbatim>\<open>attr(key)\<close>
  returns \<^verbatim>\<open>null\<close>; on a collection whose length is not one it returns
  \<^verbatim>\<open>undefined\<close>; and the two values differ.
\<close>

theorem attr_absent_is_null:
  "(items this = [n] \<and> instanceof_Element n \<and> attributes S n (attrName n key) = None
      \<longrightarrow> attr H S this key Undefined = Inr (S, Null)) \<and>
   (length (items other) \<noteq> 1 \<longrightarrow> attr H S other key Undefined = Inr (S, Undefined)) \<and>
   Null \<noteq> Undefined"
  by (simp add: attr_get_single attr_get_other)

theorem attr_absent_is_null_witness:
  "attr example_host example_page (DOM [page_div] [] (StrV []) Undefined) ''k'' Undefined
     = Inr (example_page, Null) \<and>
   attr example_host example_page (DOM [page_div, page_span] [] (StrV []) Undefined) ''k'' Undefined
     = Inr (example_page, Undefined)"
  using attr_absent_is_null [of "DOM [page_div] [] (StrV []) Undefined" page_div example_page
      "''k''" example_host "DOM [page_div, page_span] [] (StrV []) Undefined"]
  by (simp add: page_div_def instanceof_Element_def example_page_def)

end
